theory Spec2Isabelle
  imports Main "HOL-Library.Sublist" "HOL-Library.Word"
begin

section \<open>Values exchanged with the identity provider\<close>

text \<open>
  The module \<^verbatim>\<open>tokendito/okta.py\<close> works on decoded JSON documents (the values
  \<^verbatim>\<open>response.json()\<close> returns): \<^verbatim>\<open>None\<close>, booleans, numbers, strings, lists and
  dictionaries. A dictionary is an association list read with \<open>map_of\<close>. Numbers are
  integers; no function modelled here computes with a fractional number.
\<close>

datatype json =
    JNull
  | JBool bool
  | JNum int
  | JStr string
  | JArr "json list"
  | JObj "(string \<times> json) list"

text \<open>
  Failures are values. A Python exception that nothing catches is \<open>Raised\<close>; the
  pattern \<^verbatim>\<open>logger.error(...); sys.exit(n)\<close> is \<open>Exit n\<close> with the message logged.
\<close>

datatype pyexc =
    KeyError string
  | AttributeError
  | TypeError
  | UnicodeEncodeError
  | UnicodeDecodeError
  | BinasciiError
  | CookieConflictError

datatype logmsg =
    NoConfigItemFound
  | AuthCodeGrantNotFound
  | CodeResponseTypeNotFound
  | NoGrantTypesSupported
  | MfaProviderNotSupported json json
  | MfaNotUnique
  | PushDenied
  | PushWindowExpired
  | PushNotImplemented json json
  | IdpDiscoveryNotSupported json

datatype error = Exit nat logmsg | Raised pyexc

text \<open>\<^verbatim>\<open>needle in haystack\<close> on two Python strings: a contiguous occurrence.\<close>

fun str_in :: "string \<Rightarrow> string \<Rightarrow> bool" where
  "str_in s [] = (s = [])"
| "str_in s (c # cs) = (prefix s (c # cs) \<or> str_in s cs)"

section \<open>Python primitives on decoded JSON\<close>

text \<open>Truthiness, as \<^verbatim>\<open>if value:\<close> tests it.\<close>

fun truthy :: "json \<Rightarrow> bool" where
  "truthy JNull = False"
| "truthy (JBool b) = b"
| "truthy (JNum n) = (n \<noteq> 0)"
| "truthy (JStr s) = (s \<noteq> [])"
| "truthy (JArr xs) = (xs \<noteq> [])"
| "truthy (JObj kvs) = (kvs \<noteq> [])"

text \<open>
  \<^verbatim>\<open>key in value\<close> for a string key: key membership in a dictionary, element membership
  in a list, substring test in a string, TypeError on anything else.
\<close>

fun py_in :: "string \<Rightarrow> json \<Rightarrow> error + bool" where
  "py_in k (JObj kvs) = Inr (k \<in> set (map fst kvs))"
| "py_in k (JArr xs) = Inr (JStr k \<in> set xs)"
| "py_in k (JStr s) = Inr (str_in k s)"
| "py_in k v = Inl (Raised TypeError)"

text \<open>\<^verbatim>\<open>value.get(key, default)\<close>: only a dictionary has the method.\<close>

fun py_get :: "json \<Rightarrow> string \<Rightarrow> json \<Rightarrow> error + json" where
  "py_get (JObj kvs) k d = Inr (case map_of kvs k of None \<Rightarrow> d | Some v \<Rightarrow> v)"
| "py_get v k d = Inl (Raised AttributeError)"

text \<open>\<^verbatim>\<open>value[key]\<close> for a string key.\<close>

fun py_item :: "json \<Rightarrow> string \<Rightarrow> error + json" where
  "py_item (JObj kvs) k =
     (case map_of kvs k of None \<Rightarrow> Inl (Raised (KeyError k)) | Some v \<Rightarrow> Inr v)"
| "py_item v k = Inl (Raised TypeError)"

text \<open>Sequencing of steps that may fail: the first failure ends the computation.\<close>

definition and_then :: "error + 'a \<Rightarrow> ('a \<Rightarrow> error + 'b) \<Rightarrow> error + 'b" where
  "and_then m f = (case m of Inl e \<Rightarrow> Inl e | Inr x \<Rightarrow> f x)"

fun map_err :: "('a \<Rightarrow> error + 'b) \<Rightarrow> 'a list \<Rightarrow> error + 'b list" where
  "map_err f [] = Inr []"
| "map_err f (x # xs) =
     and_then (f x) (\<lambda>y. and_then (map_err f xs) (\<lambda>ys. Inr (y # ys)))"

text \<open>
  A value inside an f-string: a string stands for itself; how any other value prints is
  left to the parameter \<open>other\<close>.
\<close>

fun py_format :: "(json \<Rightarrow> string) \<Rightarrow> json \<Rightarrow> string" where
  "py_format other (JStr s) = s"
| "py_format other v = other v"

section \<open>Factor selection: \<^verbatim>\<open>mfa_index\<close> and the labels of \<^verbatim>\<open>mfa_challenge\<close>\<close>

text \<open>
  \<^verbatim>\<open>available_mfas = [f"{d['provider']}_{d['factorType']}_{d['id']}" for d in mfa_options]\<close>
\<close>

definition mfa_label :: "(json \<Rightarrow> string) \<Rightarrow> json \<Rightarrow> error + string" where
  "mfa_label other d =
     and_then (py_item d ''provider'') (\<lambda>p.
     and_then (py_item d ''factorType'') (\<lambda>t.
     and_then (py_item d ''id'') (\<lambda>i.
       Inr (py_format other p @ ''_'' @ py_format other t @ ''_'' @ py_format other i))))"

definition available_mfas :: "(json \<Rightarrow> string) \<Rightarrow> json list \<Rightarrow> error + string list" where
  "available_mfas other mfa_options = map_err (mfa_label other) mfa_options"

text \<open>
  \<^verbatim>\<open>mfa_index(preset_mfa, available_mfas, mfa_options)\<close>. The configured selector
  \<^verbatim>\<open>config.okta["mfa"]\<close> is \<^verbatim>\<open>None\<close> or a string; \<^verbatim>\<open>if preset_mfa:\<close> skips the matching
  for \<^verbatim>\<open>None\<close> and for the empty string. The interactive choice
  \<^verbatim>\<open>user.select_preferred_mfa_index\<close> belongs to another module and is a parameter.
\<close>

definition mfa_indices :: "string option \<Rightarrow> string list \<Rightarrow> nat list" where
  "mfa_indices preset_mfa labels =
     (case preset_mfa of
        None \<Rightarrow> []
      | Some p \<Rightarrow>
          if p \<noteq> [] then map fst (filter (\<lambda>(i, elem). str_in p elem) (enumerate 0 labels))
          else [])"

definition mfa_index ::
  "(json list \<Rightarrow> nat) \<Rightarrow> string option \<Rightarrow> string list \<Rightarrow> json list \<Rightarrow> error + nat" where
  "mfa_index select_preferred_mfa_index preset_mfa labels mfa_options =
     (let indices = mfa_indices preset_mfa labels in
      if length indices = 0 then Inr (select_preferred_mfa_index mfa_options)
      else if length indices = 1 then Inr (indices ! 0)
      else Inl (Exit 1 MfaNotUnique))"

text \<open>Lines 1049 and 1050 of \<^verbatim>\<open>mfa_challenge\<close>: build the labels, then resolve the index.\<close>

definition mfa_challenge_index ::
  "(json \<Rightarrow> string) \<Rightarrow> (json list \<Rightarrow> nat) \<Rightarrow> string option \<Rightarrow> json list \<Rightarrow> error + nat" where
  "mfa_challenge_index other select_preferred_mfa_index preset_mfa mfa_options =
     and_then (available_mfas other mfa_options) (\<lambda>labels.
       mfa_index select_preferred_mfa_index preset_mfa labels mfa_options)"

text \<open>The labels that contain the selector, as the specification words it.\<close>

definition selector_matches :: "string \<Rightarrow> string list \<Rightarrow> nat set" where
  "selector_matches p labels = {i. i < length labels \<and> (\<exists>u v. labels ! i = u @ p @ v)}"

section \<open>Push approval: \<^verbatim>\<open>push_approval\<close>\<close>

text \<open>
  What the user and the outside world see of a run, in order: messages printed with
  \<^verbatim>\<open>user.print\<close>, one \<open>Posted\<close> per \<^verbatim>\<open>HTTP_client.post\<close>, values handed to
  \<^verbatim>\<open>user.add_sensitive_value_to_be_masked\<close>, and one \<open>Slept\<close> per \<^verbatim>\<open>time.sleep(1)\<close>.
\<close>

datatype console = WaitingForApproval | NumberChallenge json

datatype effect = Printed console | Posted | Masked json | Slept

text \<open>
  \<^verbatim>\<open>response.get("_embedded", {}).get("factor", {}).get("_embedded", {})
          .get("challenge", {}).get("correctAnswer", None)\<close>
\<close>

definition correct_answer :: "json \<Rightarrow> error + json" where
  "correct_answer response =
     and_then (py_get response ''_embedded'' (JObj [])) (\<lambda>e1.
     and_then (py_get e1 ''factor'' (JObj [])) (\<lambda>f.
     and_then (py_get f ''_embedded'' (JObj [])) (\<lambda>e2.
     and_then (py_get e2 ''challenge'' (JObj [])) (\<lambda>c.
       py_get c ''correctAnswer'' JNull))))"

text \<open>
  One pass through the body of the \<^verbatim>\<open>while\<close> loop, for the reply \<open>response\<close> of the
  transport and the current flag \<^verbatim>\<open>challenge_displayed\<close>. It yields the new
  \<^verbatim>\<open>status\<close>, \<^verbatim>\<open>result\<close> and flag, or the exception that ends the run, with the
  effects up to that point.
\<close>

definition push_poll :: "json \<Rightarrow> bool \<Rightarrow> (error + json \<times> json \<times> bool) \<times> effect list" where
  "push_poll response challenge_displayed =
     (case and_then (py_in ''sessionToken'' response) (\<lambda>has.
             if has then and_then (py_item response ''sessionToken'') (\<lambda>t. Inr [Masked t])
             else Inr []) of
        Inl e \<Rightarrow> (Inl e, [Posted])
      | Inr masked \<Rightarrow>
          (case and_then (py_get response ''status'' (JStr ''UNKNOWN'')) (\<lambda>status.
                and_then (py_get response ''factorResult'' (JStr ''UNKNOWN'')) (\<lambda>result.
                and_then (correct_answer response) (\<lambda>answer. Inr (status, result, answer)))) of
             Inl e \<Rightarrow> (Inl e, Posted # masked)
           | Inr (status, result, answer) \<Rightarrow>
               if truthy answer \<and> \<not> challenge_displayed
               then (Inr (status, result, True),
                     Posted # masked @ [Printed (NumberChallenge answer), Slept])
               else (Inr (status, result, challenge_displayed), Posted # masked @ [Slept])))"

text \<open>
  The loop \<^verbatim>\<open>while status == "MFA_CHALLENGE" and result == "WAITING"\<close>. The replies of
  the transport are a script, consumed one per pass. The source has no bound on the
  number of passes: a script that ends while the loop still waits gives \<open>None\<close>.
\<close>

fun push_loop ::
  "json list \<Rightarrow> json \<Rightarrow> json \<Rightarrow> json \<Rightarrow> bool
     \<Rightarrow> (error + json \<times> json \<times> json) option \<times> effect list" where
  "push_loop [] status result response challenge_displayed =
     (if status = JStr ''MFA_CHALLENGE'' \<and> result = JStr ''WAITING'' then (None, [])
      else (Some (Inr (status, result, response)), []))"
| "push_loop (r # rs) status result response challenge_displayed =
     (if status = JStr ''MFA_CHALLENGE'' \<and> result = JStr ''WAITING'' then
        (case push_poll r challenge_displayed of
           (Inl e, tr) \<Rightarrow> (Some (Inl e), tr)
         | (Inr (status', result', displayed'), tr) \<Rightarrow>
             (case push_loop rs status' result' r displayed' of
                (out, tr') \<Rightarrow> (out, tr @ tr')))
      else (Some (Inr (status, result, response)), []))"

text \<open>The \<^verbatim>\<open>if\<close>/\<^verbatim>\<open>elif\<close> chain after the loop.\<close>

definition push_failure :: "json \<Rightarrow> json \<Rightarrow> error" where
  "push_failure status result =
     (if result = JStr ''REJECTED'' then Exit 2 PushDenied
      else if result = JStr ''TIMEOUT'' then Exit 2 PushWindowExpired
      else Exit 2 (PushNotImplemented result status))"

definition push_verdict :: "json \<Rightarrow> json \<Rightarrow> json \<Rightarrow> error + json" where
  "push_verdict status result response =
     (if status = JStr ''SUCCESS'' then
        and_then (py_in ''sessionToken'' response) (\<lambda>has.
          if has then Inr response else Inl (push_failure status result))
      else Inl (push_failure status result))"

definition push_approval :: "json list \<Rightarrow> (error + json) option \<times> effect list" where
  "push_approval replies =
     (case push_loop replies (JStr ''MFA_CHALLENGE'') (JStr ''WAITING'') (JObj []) False of
        (None, tr) \<Rightarrow> (None, Printed WaitingForApproval # tr)
      | (Some (Inl e), tr) \<Rightarrow> (Some (Inl e), Printed WaitingForApproval # tr)
      | (Some (Inr (status, result, response)), tr) \<Rightarrow>
          (Some (push_verdict status result response), Printed WaitingForApproval # tr))"

text \<open>Vocabulary for statements about a reply.\<close>

definition reply_status :: "json \<Rightarrow> error + json" where
  "reply_status r = py_get r ''status'' (JStr ''UNKNOWN'')"

definition reply_result :: "json \<Rightarrow> error + json" where
  "reply_result r = py_get r ''factorResult'' (JStr ''UNKNOWN'')"

definition is_waiting :: "json \<Rightarrow> bool" where
  "is_waiting r \<longleftrightarrow>
     reply_status r = Inr (JStr ''MFA_CHALLENGE'') \<and> reply_result r = Inr (JStr ''WAITING'')"

text \<open>A reply is well formed when it is a dictionary and the path to the number
  challenge meets dictionaries only, so that reading it raises nothing.\<close>

definition well_formed :: "json \<Rightarrow> bool" where
  "well_formed r =
     (case r of
        JObj kvs \<Rightarrow> (case correct_answer r of Inr a \<Rightarrow> True | Inl e \<Rightarrow> False)
      | _ \<Rightarrow> False)"

definition number_challenges :: "effect list \<Rightarrow> json list" where
  "number_challenges tr =
     concat (map (\<lambda>e. case e of Printed (NumberChallenge a) \<Rightarrow> [a] | _ \<Rightarrow> []) tr)"

definition polls :: "effect list \<Rightarrow> nat" where
  "polls tr = length (filter (\<lambda>e. e = Posted) tr)"

definition sleeps :: "effect list \<Rightarrow> nat" where
  "sleeps tr = length (filter (\<lambda>e. e = Slept) tr)"

text \<open>
  The number challenge is shown at its first appearance: the trace \<open>tr\<close> of a run over the
  replies \<open>rs\<close> either prints no number challenge, or prints exactly one, during the poll of
  the first reply whose answer is truthy.
\<close>

definition first_shown :: "json list \<Rightarrow> effect list \<Rightarrow> bool" where
  "first_shown rs tr \<longleftrightarrow>
     number_challenges tr = [] \<or>
     (\<exists>i a tr1 tr2. i < length rs \<and> tr = tr1 @ Printed (NumberChallenge a) # tr2
        \<and> number_challenges tr1 = [] \<and> number_challenges tr2 = []
        \<and> polls tr1 = i + 1 \<and> sleeps tr1 = i
        \<and> correct_answer (rs ! i) = Inr a \<and> truthy a
        \<and> (\<forall>j<i. \<exists>v. correct_answer (rs ! j) = Inr v \<and> \<not> truthy v))"

text \<open>Replies for the worked examples.\<close>

definition waiting_reply :: json where
  "waiting_reply = JObj [(''status'', JStr ''MFA_CHALLENGE''), (''factorResult'', JStr ''WAITING'')]"

definition waiting_reply_with_number :: "int \<Rightarrow> json" where
  "waiting_reply_with_number n =
     JObj [(''status'', JStr ''MFA_CHALLENGE''), (''factorResult'', JStr ''WAITING''),
           (''_embedded'', JObj [(''factor'', JObj [(''_embedded'',
              JObj [(''challenge'', JObj [(''correctAnswer'', JNum n)])])])])]"

definition success_reply :: json where
  "success_reply = JObj [(''status'', JStr ''SUCCESS''), (''sessionToken'', JStr ''20111abc'')]"

definition rejected_reply :: json where
  "rejected_reply = JObj [(''status'', JStr ''MFA_CHALLENGE''), (''factorResult'', JStr ''REJECTED'')]"

definition timeout_reply :: json where
  "timeout_reply = JObj [(''status'', JStr ''MFA_CHALLENGE''), (''factorResult'', JStr ''TIMEOUT'')]"

definition rejected_reply_with_token :: json where
  "rejected_reply_with_token =
     JObj [(''status'', JStr ''MFA_CHALLENGE''), (''factorResult'', JStr ''REJECTED''),
           (''sessionToken'', JStr ''20111abc'')]"

section \<open>The configuration object\<close>

text \<open>
  Modelled from the spec: the class \<^verbatim>\<open>Config\<close> (module \<^verbatim>\<open>tokendito.config\<close>) is not among
  the sources. The specification's OrgConfig holds the org base URL, the username, the
  password, the preferred MFA selector, the optional pre-supplied MFA response and the
  OAuth client id; these are the entries of \<^verbatim>\<open>config.okta\<close> that \<^verbatim>\<open>okta.py\<close> reads or
  writes. The URL and the credentials are strings, the other three may be \<^verbatim>\<open>None\<close>. A
  deep copy of a configuration is a new object with the same entries.
\<close>

record okta =
  org :: string
  username :: string
  password :: string
  mfa :: "string option"
  mfa_response :: "string option"
  oauth_client_id :: "string option"

section \<open>The challenge dispatcher: \<^verbatim>\<open>mfa_provider_type\<close> and \<^verbatim>\<open>totp_approval\<close>\<close>

text \<open>
  What the collaborators answer during one dispatch: the outcome of the DUO exchange
  (module \<^verbatim>\<open>tokendito.duo\<close>) followed by the verification request, the script of replies
  to the push polls, the reply to the one-time-code verification, and the code the user
  types when asked.
\<close>

record mfa_world =
  duo_verify :: "error + json"
  push_replies :: "json list"
  totp_verify :: json
  verification_code :: string

text \<open>
  \<^verbatim>\<open>selected_factor.get("_embedded", {}).get("factor", {}).get("factorType", None)\<close>
\<close>

definition factor_type_of :: "json \<Rightarrow> error + json" where
  "factor_type_of selected_factor =
     and_then (py_get selected_factor ''_embedded'' (JObj [])) (\<lambda>e.
     and_then (py_get e ''factor'' (JObj [])) (\<lambda>f.
       py_get f ''factorType'' JNull))"

text \<open>
  \<^verbatim>\<open>totp_approval\<close>: the debug line formats \<^verbatim>\<open>selected_mfa_option['factorType']\<close> first;
  a missing \<^verbatim>\<open>mfa_response\<close> is asked from the user and stored in the configuration; the
  payload reads \<^verbatim>\<open>primary_auth["stateToken"]\<close>; the session token of the reply, when
  there is one, is registered for masking; the reply is returned.
\<close>

definition totp_approval ::
  "okta \<Rightarrow> json \<Rightarrow> json \<Rightarrow> string \<Rightarrow> json \<Rightarrow> (error + json) \<times> okta" where
  "totp_approval config selected_mfa_option primary_auth code reply =
     (case py_item selected_mfa_option ''factorType'' of
        Inl e \<Rightarrow> (Inl e, config)
      | Inr ft \<Rightarrow>
          (let config' = (if mfa_response config = None
                          then config\<lparr>mfa_response := Some code\<rparr> else config)
           in (and_then (py_item primary_auth ''stateToken'') (\<lambda>state_token.
               and_then (py_in ''sessionToken'' reply) (\<lambda>has.
               and_then (if has then py_item reply ''sessionToken'' else Inr JNull) (\<lambda>masked.
                 Inr reply))),
               config')))"

text \<open>
  The end of \<^verbatim>\<open>mfa_provider_type\<close>:
  \<^verbatim>\<open>
  if "sessionToken" not in mfa_verify:
      logger.error(f"Could not verify MFA Challenge with {mfa_provider} {primary_auth['factorType']}")
  return mfa_verify["sessionToken"]
  \<close>
  The message is formatted before it is logged, so \<^verbatim>\<open>primary_auth['factorType']\<close> is read;
  nothing leaves the function between the log line and the return.
\<close>

definition mfa_session_token :: "json \<Rightarrow> json \<Rightarrow> error + json" where
  "mfa_session_token primary_auth mfa_verify =
     and_then (py_in ''sessionToken'' mfa_verify) (\<lambda>has.
     and_then (if \<not> has then py_item primary_auth ''factorType'' else Inr JNull) (\<lambda>logged.
       py_item mfa_verify ''sessionToken''))"

text \<open>
  \<^verbatim>\<open>mfa_provider_type\<close>. The result is \<open>None\<close> when the push polling does not return;
  the configuration comes back because \<^verbatim>\<open>totp_approval\<close> may have stored the code in it.
\<close>

definition mfa_provider_type ::
  "okta \<Rightarrow> mfa_world \<Rightarrow> json \<Rightarrow> json \<Rightarrow> json \<Rightarrow> json \<Rightarrow> (error + json) option \<times> okta" where
  "mfa_provider_type config world mfa_provider selected_factor primary_auth selected_mfa_option =
     (case factor_type_of selected_factor of
        Inl e \<Rightarrow> (Some (Inl e), config)
      | Inr factor_type \<Rightarrow>
          if mfa_provider = JStr ''DUO'' then
            (Some (and_then (duo_verify world) (mfa_session_token primary_auth)), config)
          else if mfa_provider = JStr ''OKTA'' \<and> factor_type = JStr ''push'' then
            (case fst (push_approval (push_replies world)) of
               None \<Rightarrow> (None, config)
             | Some mfa_verify \<Rightarrow>
                 (Some (and_then mfa_verify (mfa_session_token primary_auth)), config))
          else if (mfa_provider = JStr ''OKTA'' \<or> mfa_provider = JStr ''GOOGLE'')
                \<and> (factor_type = JStr ''token:software:totp'' \<or> factor_type = JStr ''sms'') then
            (case totp_approval config selected_mfa_option primary_auth
                    (verification_code world) (totp_verify world) of
               (mfa_verify, config') \<Rightarrow>
                 (Some (and_then mfa_verify (mfa_session_token primary_auth)), config'))
          else (Some (Inl (Exit 1 (MfaProviderNotSupported mfa_provider factor_type))), config))"

section \<open>OAuth2 discovery and \<^verbatim>\<open>oauth2_authorize\<close>\<close>

text \<open>
  \<^verbatim>\<open>validate_oauth2_configuration\<close>. The source iterates over a Python set, whose order is
  not fixed; every order ends the same way (the same exception, or exit status 1), and the
  log message modelled here does not name the item, which is the only thing the order
  decides.
\<close>

definition mandadory_oauth2_config_items :: "string list" where
  "mandadory_oauth2_config_items =
     [''authorization_endpoint'', ''token_endpoint'', ''grant_types_supported'',
      ''response_types_supported'', ''scopes_supported'']"

definition validate_oauth2_configuration :: "json \<Rightarrow> error + unit" where
  "validate_oauth2_configuration oauth2_config =
     and_then (map_err (\<lambda>item. and_then (py_in item oauth2_config) (\<lambda>has.
                  if \<not> has then Inl (Exit 1 NoConfigItemFound) else Inr ()))
                mandadory_oauth2_config_items) (\<lambda>checked.
     and_then (py_item oauth2_config ''grant_types_supported'') (\<lambda>grants.
     and_then (py_in ''authorization_code'' grants) (\<lambda>has_grant.
       if \<not> has_grant then Inl (Exit 1 AuthCodeGrantNotFound)
       else
     and_then (py_item oauth2_config ''response_types_supported'') (\<lambda>rtypes.
     and_then (py_in ''code'' rtypes) (\<lambda>has_code.
       if \<not> has_code then Inl (Exit 1 CodeResponseTypeNotFound) else Inr ())))))"

text \<open>
  \<^verbatim>\<open>get_oauth2_configuration\<close>: the transport's answer to a GET, decoded as JSON, is the
  parameter \<open>http_get_json\<close>.
\<close>

definition get_oauth2_configuration :: "(string \<Rightarrow> json) \<Rightarrow> string \<Rightarrow> error + json" where
  "get_oauth2_configuration http_get_json url =
     (let oauth2_config = http_get_json (url @ ''/.well-known/oauth-authorization-server'')
      in and_then (validate_oauth2_configuration oauth2_config) (\<lambda>ok. Inr oauth2_config))"

text \<open>
  \<^verbatim>\<open>authorization_code_enabled\<close>: KeyError (and ValueError) become exit status 1, any other
  exception passes through.
\<close>

definition authorization_code_enabled :: "string \<Rightarrow> json \<Rightarrow> error + bool" where
  "authorization_code_enabled org_url oauth2_config =
     (case py_item oauth2_config ''grant_types_supported'' of
        Inl (Raised (KeyError k)) \<Rightarrow> Inl (Exit 1 NoGrantTypesSupported)
      | Inl e \<Rightarrow> Inl e
      | Inr grants \<Rightarrow>
          and_then (py_in ''authorization_code'' grants) (\<lambda>has.
            if \<not> has then Inr False else Inr True))"

text \<open>
  \<^verbatim>\<open>oauth2_authorize\<close>. The authorization-code flow itself (\<^verbatim>\<open>authorization_code_flow\<close>:
  requests to the authorize and token endpoints with fresh random values) is the parameter
  \<open>flow\<close>; it yields a token or fails, and may store a client id in the configuration. The
  session artifact is an opaque value. The function ends with
  \<^verbatim>\<open>return session_cookies  # for now, pass thru\<close> on both branches.
\<close>

definition oauth2_authorize ::
  "(string \<Rightarrow> json) \<Rightarrow> (okta \<Rightarrow> json \<Rightarrow> 'c \<Rightarrow> (error + json) \<times> okta) \<Rightarrow> okta \<Rightarrow> 'c
     \<Rightarrow> (error + 'c) \<times> okta" where
  "oauth2_authorize http_get_json flow config session_cookies =
     (case get_oauth2_configuration http_get_json (org config) of
        Inl e \<Rightarrow> (Inl e, config)
      | Inr oauth2_config \<Rightarrow>
          (case authorization_code_enabled (org config) oauth2_config of
             Inl e \<Rightarrow> (Inl e, config)
           | Inr enabled \<Rightarrow>
               if enabled then
                 (case flow config oauth2_config session_cookies of
                    (Inl e, config') \<Rightarrow> (Inl e, config')
                  | (Inr authz_token, config') \<Rightarrow> (Inr session_cookies, config'))
               else (Inr session_cookies, config)))"

section \<open>PKCE: \<^verbatim>\<open>get_pkce_code_verifier\<close> and \<^verbatim>\<open>get_pkce_code_challenge\<close>\<close>

text \<open>
  Python \<^verbatim>\<open>bytes\<close> are lists of 8-bit words. \<^verbatim>\<open>base64.b64encode\<close> turns three bytes into
  four characters of the standard alphabet and pads the last group with \<open>=\<close>;
  \<^verbatim>\<open>base64.urlsafe_b64encode\<close> is \<^verbatim>\<open>b64encode\<close> followed by a translation of \<open>+\<close> to
  \<open>-\<close> and of \<open>/\<close> to \<open>_\<close>.
\<close>

type_synonym byte = "8 word"

definition b64_alphabet :: string where
  "b64_alphabet = ''ABCDEFGHIJKLMNOPQRSTUVWXYZabcdefghijklmnopqrstuvwxyz0123456789+/''"

definition b64chr :: "nat \<Rightarrow> char" where
  "b64chr n = b64_alphabet ! n"

fun b64encode :: "byte list \<Rightarrow> string" where
  "b64encode [] = []"
| "b64encode [a] =
     [b64chr (unat a div 4), b64chr (unat a mod 4 * 16), CHR ''='', CHR ''='']"
| "b64encode [a, b] =
     [b64chr (unat a div 4), b64chr (unat a mod 4 * 16 + unat b div 16),
      b64chr (unat b mod 16 * 4), CHR ''='']"
| "b64encode (a # b # c # rest) =
     [b64chr (unat a div 4), b64chr (unat a mod 4 * 16 + unat b div 16),
      b64chr (unat b mod 16 * 4 + unat c div 64), b64chr (unat c mod 64)] @ b64encode rest"

definition urlsafe_translate :: "char \<Rightarrow> char" where
  "urlsafe_translate c =
     (if c = CHR ''+'' then CHR ''-'' else if c = CHR ''/'' then CHR ''_'' else c)"

definition urlsafe_b64encode :: "byte list \<Rightarrow> string" where
  "urlsafe_b64encode s = map urlsafe_translate (b64encode s)"

text \<open>The character class \<^verbatim>\<open>[a-zA-Z0-9]\<close>.\<close>

definition is_alnum :: "char \<Rightarrow> bool" where
  "is_alnum c =
     (let n = (of_char c :: nat)
      in (97 \<le> n \<and> n \<le> 122) \<or> (65 \<le> n \<and> n \<le> 90) \<or> (48 \<le> n \<and> n \<le> 57))"

text \<open>
  \<^verbatim>\<open>get_pkce_code_verifier\<close>: the forty bytes of \<^verbatim>\<open>os.urandom(40)\<close> are the parameter.
  \<^verbatim>\<open>re.sub("[^a-zA-Z0-9]+", "", s)\<close> deletes every run of characters outside the class, which
  keeps exactly the characters inside it, in order.
\<close>

definition get_pkce_code_verifier :: "byte list \<Rightarrow> string" where
  "get_pkce_code_verifier urandom40 = filter is_alnum (urlsafe_b64encode urandom40)"

text \<open>
  A Python \<^verbatim>\<open>str\<close> is held as the bytes of its UTF-8 encoding, one \<open>char\<close> per byte (for
  letters and digits, the character codes), so \<^verbatim>\<open>str.encode("utf-8")\<close> only changes the
  type.
\<close>

definition utf8_encode :: "string \<Rightarrow> byte list" where
  "utf8_encode s = map (\<lambda>c. of_nat (of_char c)) s"

unbundle bit_operations_syntax

text \<open>
  \<^verbatim>\<open>hashlib.sha256(data).digest()\<close> is the hash function SHA-256 of FIPS 180-4 on 32-bit
  words: the message is padded with the byte 0x80, zero bytes up to 56 modulo 64 and its
  length in bits as eight bytes; each block of 64 bytes is read as sixteen big-endian
  words, expanded to the sixty-four words of the message schedule and run through
  sixty-four rounds on the eight working variables, which are then added to the hash
  value; the digest is the thirty-two bytes of the final hash value.
\<close>

type_synonym word32 = "32 word"

definition rotr :: "nat \<Rightarrow> word32 \<Rightarrow> word32" where
  "rotr n x = (drop_bit n x) OR (push_bit (32 - n) x)"

definition Ch :: "word32 \<Rightarrow> word32 \<Rightarrow> word32 \<Rightarrow> word32" where
  "Ch x y z = (x AND y) XOR (NOT x AND z)"

definition Maj :: "word32 \<Rightarrow> word32 \<Rightarrow> word32 \<Rightarrow> word32" where
  "Maj x y z = (x AND y) XOR (x AND z) XOR (y AND z)"

definition big_sigma0 :: "word32 \<Rightarrow> word32" where
  "big_sigma0 x = rotr 2 x XOR rotr 13 x XOR rotr 22 x"

definition big_sigma1 :: "word32 \<Rightarrow> word32" where
  "big_sigma1 x = rotr 6 x XOR rotr 11 x XOR rotr 25 x"

definition small_sigma0 :: "word32 \<Rightarrow> word32" where
  "small_sigma0 x = rotr 7 x XOR rotr 18 x XOR drop_bit 3 x"

definition small_sigma1 :: "word32 \<Rightarrow> word32" where
  "small_sigma1 x = rotr 17 x XOR rotr 19 x XOR drop_bit 10 x"

definition sha256_k :: "word32 list" where
  "sha256_k =
    [0x428A2F98, 0x71374491, 0xB5C0FBCF, 0xE9B5DBA5, 0x3956C25B, 0x59F111F1, 0x923F82A4, 0xAB1C5ED5,
     0xD807AA98, 0x12835B01, 0x243185BE, 0x550C7DC3, 0x72BE5D74, 0x80DEB1FE, 0x9BDC06A7, 0xC19BF174,
     0xE49B69C1, 0xEFBE4786, 0x0FC19DC6, 0x240CA1CC, 0x2DE92C6F, 0x4A7484AA, 0x5CB0A9DC, 0x76F988DA,
     0x983E5152, 0xA831C66D, 0xB00327C8, 0xBF597FC7, 0xC6E00BF3, 0xD5A79147, 0x06CA6351, 0x14292967,
     0x27B70A85, 0x2E1B2138, 0x4D2C6DFC, 0x53380D13, 0x650A7354, 0x766A0ABB, 0x81C2C92E, 0x92722C85,
     0xA2BFE8A1, 0xA81A664B, 0xC24B8B70, 0xC76C51A3, 0xD192E819, 0xD6990624, 0xF40E3585, 0x106AA070,
     0x19A4C116, 0x1E376C08, 0x2748774C, 0x34B0BCB5, 0x391C0CB3, 0x4ED8AA4A, 0x5B9CCA4F, 0x682E6FF3,
     0x748F82EE, 0x78A5636F, 0x84C87814, 0x8CC70208, 0x90BEFFFA, 0xA4506CEB, 0xBEF9A3F7, 0xC67178F2]"

type_synonym sha256_state =
  "word32 \<times> word32 \<times> word32 \<times> word32 \<times> word32 \<times> word32 \<times> word32 \<times> word32"

definition sha256_init :: sha256_state where
  "sha256_init = (0x6A09E667, 0xBB67AE85, 0x3C6EF372, 0xA54FF53A,
                  0x510E527F, 0x9B05688C, 0x1F83D9AB, 0x5BE0CD19)"

fun be32 :: "byte list \<Rightarrow> word32 list" where
  "be32 (b0 # b1 # b2 # b3 # bs) =
     (push_bit 24 (ucast b0) OR push_bit 16 (ucast b1) OR push_bit 8 (ucast b2) OR ucast b3)
     # be32 bs"
| "be32 bs = []"

text \<open>The message schedule: one word is emitted for each round constant, and the window
  of the last sixteen words moves on by
  \<open>W\<^sub>t = \<sigma>\<^sub>1(W\<^sub>t\<^sub>-\<^sub>2) + W\<^sub>t\<^sub>-\<^sub>7 + \<sigma>\<^sub>0(W\<^sub>t\<^sub>-\<^sub>1\<^sub>5) + W\<^sub>t\<^sub>-\<^sub>1\<^sub>6\<close>.\<close>

fun message_schedule :: "word32 list \<Rightarrow> word32 list \<Rightarrow> word32 list" where
  "message_schedule (k # ks)
     (w0 # w1 # w2 # w3 # w4 # w5 # w6 # w7 # w8 # w9 # w10 # w11 # w12 # w13 # w14 # w15 # ws) =
     w0 # message_schedule ks
            (w1 # w2 # w3 # w4 # w5 # w6 # w7 # w8 # w9 # w10 # w11 # w12 # w13 # w14 # w15
               # ws @ [small_sigma1 w14 + w9 + small_sigma0 w1 + w0])"
| "message_schedule ks ws = []"

fun sha256_round :: "sha256_state \<Rightarrow> word32 \<times> word32 \<Rightarrow> sha256_state" where
  "sha256_round (a, b, c, d, e, f, g, h) (k, w) =
     (let t1 = h + big_sigma1 e + Ch e f g + k + w;
          t2 = big_sigma0 a + Maj a b c
      in (t1 + t2, a, b, c, d + t1, e, f, g))"

fun add_state :: "sha256_state \<Rightarrow> sha256_state \<Rightarrow> sha256_state" where
  "add_state (a, b, c, d, e, f, g, h) (a', b', c', d', e', f', g', h') =
     (a + a', b + b', c + c', d + d', e + e', f + f', g + g', h + h')"

definition sha256_compress :: "sha256_state \<Rightarrow> byte list \<Rightarrow> sha256_state" where
  "sha256_compress st block =
     add_state st
       (foldl sha256_round st (zip sha256_k (message_schedule sha256_k (be32 block))))"

fun sha256_blocks :: "nat \<Rightarrow> byte list \<Rightarrow> byte list list" where
  "sha256_blocks 0 m = []"
| "sha256_blocks (Suc n) m = take 64 m # sha256_blocks n (drop 64 m)"

definition length_bytes :: "nat \<Rightarrow> byte list" where
  "length_bytes n =
     (let l = (of_nat (8 * n) :: 64 word)
      in map (\<lambda>i. ucast (drop_bit i l)) [56, 48, 40, 32, 24, 16, 8, 0])"

definition sha256_pad :: "byte list \<Rightarrow> byte list" where
  "sha256_pad m = m @ [0x80] @ replicate ((119 - length m mod 64) mod 64) 0
                    @ length_bytes (length m)"

fun word_bytes :: "word32 \<Rightarrow> byte list" where
  "word_bytes x = [ucast (drop_bit 24 x), ucast (drop_bit 16 x), ucast (drop_bit 8 x), ucast x]"

fun state_bytes :: "sha256_state \<Rightarrow> byte list" where
  "state_bytes (a, b, c, d, e, f, g, h) = concat (map word_bytes [a, b, c, d, e, f, g, h])"

definition sha256 :: "byte list \<Rightarrow> byte list" where
  "sha256 m =
     (let p = sha256_pad m
      in state_bytes (foldl sha256_compress sha256_init (sha256_blocks (length p div 64) p)))"

text \<open>
  \<^verbatim>\<open>get_pkce_code_challenge\<close>. The encoded digest is ASCII, so its \<^verbatim>\<open>decode("utf-8")\<close> only
  changes the type; \<^verbatim>\<open>replace("=", "")\<close> deletes every \<open>=\<close>.
\<close>

definition get_pkce_code_challenge :: "string \<Rightarrow> string" where
  "get_pkce_code_challenge code_verifier =
     filter (\<lambda>c. c \<noteq> CHR ''='')
       (urlsafe_b64encode (sha256 (utf8_encode code_verifier)))"

text \<open>
  The specification's wording of the challenge: the base64 encoding over the URL-safe
  alphabet (RFC 4648, section 5), with the padding at the end removed.
\<close>

definition base64url_alphabet :: string where
  "base64url_alphabet = ''ABCDEFGHIJKLMNOPQRSTUVWXYZabcdefghijklmnopqrstuvwxyz0123456789-_''"

fun base64url :: "byte list \<Rightarrow> string" where
  "base64url (a # b # c # rest) =
     [base64url_alphabet ! (unat a div 4),
      base64url_alphabet ! (unat a mod 4 * 16 + unat b div 16),
      base64url_alphabet ! (unat b mod 16 * 4 + unat c div 64),
      base64url_alphabet ! (unat c mod 64)] @ base64url rest"
| "base64url [a, b] =
     [base64url_alphabet ! (unat a div 4),
      base64url_alphabet ! (unat a mod 4 * 16 + unat b div 16),
      base64url_alphabet ! (unat b mod 16 * 4), CHR ''='']"
| "base64url [a] =
     [base64url_alphabet ! (unat a div 4), base64url_alphabet ! (unat a mod 4 * 16),
      CHR ''='', CHR ''='']"
| "base64url [] = []"

definition without_padding :: "string \<Rightarrow> string" where
  "without_padding s = rev (dropWhile (\<lambda>c. c = CHR ''='') (rev s))"

section \<open>Extraction from HTML: \<^verbatim>\<open>extract_saml_response\<close>\<close>

text \<open>
  The tree \<^verbatim>\<open>BeautifulSoup(html, "html.parser")\<close> builds: an element has a name,
  attributes and children; a leaf is a piece of text. The parser belongs to a library and
  is a parameter of the functions below. The attributes read here (\<open>name\<close>, \<open>value\<close>)
  hold one string each.
\<close>

datatype node = Tag string "(string \<times> string) list" "node list" | Leaf string

text \<open>The elements of a tree in document order, as \<^verbatim>\<open>find\<close> visits them.\<close>

fun all_tags :: "node \<Rightarrow> node list" where
  "all_tags (Leaf s) = []"
| "all_tags (Tag name attrs children) =
     Tag name attrs children # concat (map all_tags children)"

fun tag_name :: "node \<Rightarrow> string" where
  "tag_name (Tag name attrs children) = name"
| "tag_name (Leaf s) = []"

text \<open>\<^verbatim>\<open>elem.get(key)\<close>: the attribute, or \<^verbatim>\<open>None\<close>.\<close>

fun tag_get :: "node \<Rightarrow> string \<Rightarrow> string option" where
  "tag_get (Tag name attrs children) key = map_of attrs key"
| "tag_get (Leaf s) key = None"

text \<open>
  \<^verbatim>\<open>soup.find(name, attrs={key: value})\<close>: the first element in document order with that
  name whose attribute \<open>key\<close> equals \<open>value\<close>, or \<^verbatim>\<open>None\<close>.
\<close>

definition soup_matches :: "string \<Rightarrow> string \<Rightarrow> string \<Rightarrow> node \<Rightarrow> bool" where
  "soup_matches name key val t \<longleftrightarrow> tag_name t = name \<and> tag_get t key = Some val"

definition soup_find :: "string \<Rightarrow> string \<Rightarrow> string \<Rightarrow> node list \<Rightarrow> node option" where
  "soup_find name key val soup =
     List.find (soup_matches name key val) (concat (map all_tags soup))"

text \<open>\<^verbatim>\<open>str(x)\<close> for a string or \<^verbatim>\<open>None\<close>.\<close>

definition py_str :: "string option \<Rightarrow> string" where
  "py_str x = (case x of None \<Rightarrow> ''None'' | Some s \<Rightarrow> s)"

text \<open>
  With a \<^verbatim>\<open>str\<close> held as its UTF-8 bytes, \<^verbatim>\<open>s.encode("ascii")\<close> raises on any byte from
  128 up, and \<^verbatim>\<open>b.decode("utf-8")\<close> raises unless the bytes are well-formed UTF-8 (no
  overlong form, no surrogate, nothing above U+10FFFF) and then keeps them as they are.
\<close>

definition ascii_encode :: "string \<Rightarrow> error + byte list" where
  "ascii_encode s =
     (if list_all (\<lambda>c. (of_char c :: nat) < 128) s then Inr (map (\<lambda>c. of_nat (of_char c)) s)
      else Inl (Raised UnicodeEncodeError))"

definition is_cont :: "nat \<Rightarrow> bool" where
  "is_cont b \<longleftrightarrow> 128 \<le> b \<and> b \<le> 191"

fun utf8_valid :: "nat list \<Rightarrow> bool" where
  "utf8_valid [] = True"
| "utf8_valid (b # bs) =
     (if b < 128 then utf8_valid bs
      else if 194 \<le> b \<and> b \<le> 223 then
        (case bs of c1 # r \<Rightarrow> is_cont c1 \<and> utf8_valid r | _ \<Rightarrow> False)
      else if 224 \<le> b \<and> b \<le> 239 then
        (case bs of
           c1 # c2 # r \<Rightarrow>
             (if b = 224 then 160 \<le> c1 \<and> c1 \<le> 191
              else if b = 237 then 128 \<le> c1 \<and> c1 \<le> 159
              else is_cont c1)
             \<and> is_cont c2 \<and> utf8_valid r
         | _ \<Rightarrow> False)
      else if 240 \<le> b \<and> b \<le> 244 then
        (case bs of
           c1 # c2 # c3 # r \<Rightarrow>
             (if b = 240 then 144 \<le> c1 \<and> c1 \<le> 191
              else if b = 244 then 128 \<le> c1 \<and> c1 \<le> 143
              else is_cont c1)
             \<and> is_cont c2 \<and> is_cont c3 \<and> utf8_valid r
         | _ \<Rightarrow> False)
      else False)"

definition utf8_decode :: "byte list \<Rightarrow> error + string" where
  "utf8_decode bs =
     (if utf8_valid (map unat bs) then Inr (map (\<lambda>b. char_of (unat b)) bs)
      else Inl (Raised UnicodeDecodeError))"

text \<open>
  \<^verbatim>\<open>codecs.decode(b, "base64")\<close> is \<^verbatim>\<open>binascii.a2b_base64(b)\<close> in its lenient mode. It
  walks the bytes with the position in the current group of four (\<open>quad_pos\<close>), the bits
  left over (\<open>leftchar\<close>) and the pads seen (\<open>pads\<close>): bytes outside the alphabet are
  skipped; a pad that completes a group ends the decoding; at the end of the input an
  unfinished group is an error.
\<close>

definition b64_value :: "byte \<Rightarrow> nat option" where
  "b64_value ch = map_of (zip (map (\<lambda>c. of_nat (of_char c)) b64_alphabet) [0..<64]) ch"

fun a2b_loop :: "byte list \<Rightarrow> nat \<Rightarrow> nat \<Rightarrow> nat \<Rightarrow> byte list \<Rightarrow> error + byte list" where
  "a2b_loop [] quad_pos leftchar pads bin =
     (if quad_pos \<noteq> 0 then Inl (Raised BinasciiError) else Inr bin)"
| "a2b_loop (ch # rest) quad_pos leftchar pads bin =
     (if ch = 61 then
        (if 2 \<le> quad_pos \<and> 4 \<le> quad_pos + (pads + 1) then Inr bin
         else a2b_loop rest quad_pos leftchar (if 2 \<le> quad_pos then pads + 1 else pads) bin)
      else
        (case b64_value ch of
           None \<Rightarrow> a2b_loop rest quad_pos leftchar pads bin
         | Some v \<Rightarrow>
             if quad_pos = 0 then a2b_loop rest 1 v 0 bin
             else if quad_pos = 1 then
               a2b_loop rest 2 (v mod 16) 0 (bin @ [of_nat (leftchar * 4 + v div 16)])
             else if quad_pos = 2 then
               a2b_loop rest 3 (v mod 4) 0 (bin @ [of_nat (leftchar * 16 + v div 4)])
             else a2b_loop rest 0 0 0 (bin @ [of_nat (leftchar * 64 + v)])))"

definition a2b_base64 :: "byte list \<Rightarrow> error + byte list" where
  "a2b_base64 bs = a2b_loop bs 0 0 0 []"

text \<open>
  \<^verbatim>\<open>extract_saml_response(html, raw=False)\<close>. The value is decoded before \<^verbatim>\<open>raw\<close> is
  looked at, so a value that does not decode raises in either mode.
\<close>

definition extract_saml_response ::
  "(string \<Rightarrow> node list) \<Rightarrow> string \<Rightarrow> bool \<Rightarrow> error + string option" where
  "extract_saml_response html_parser html raw =
     (case soup_find ''input'' ''name'' ''SAMLResponse'' (html_parser html) of
        None \<Rightarrow> Inr None
      | Some elem \<Rightarrow>
          (let saml_base64 = py_str (tag_get elem ''value'') in
           and_then (ascii_encode saml_base64) (\<lambda>b.
           and_then (a2b_base64 b) (\<lambda>bin.
           and_then (utf8_decode bin) (\<lambda>xml.
             Inr (Some (if raw then saml_base64 else xml)))))))"

section \<open>The state token and \<^verbatim>\<open>send_saml_response\<close>\<close>

text \<open>
  \<^verbatim>\<open>tag.string\<close> (the only text of an element, looking through single children) and
  \<^verbatim>\<open>tag.text\<close> (all the text below it, joined; for a script element, its content).
\<close>

fun tag_string :: "node \<Rightarrow> string option" where
  "tag_string (Leaf s) = Some s"
| "tag_string (Tag name attrs [child]) = tag_string child"
| "tag_string (Tag name attrs children) = None"

fun tag_text :: "node \<Rightarrow> string" where
  "tag_text (Leaf s) = s"
| "tag_text (Tag name attrs children) = concat (map tag_text children)"

text \<open>
  The search \<^verbatim>\<open>pattern.search(s)\<close> for the pattern
  \<^verbatim>\<open>var stateToken = '(?P<stateToken>.*)';\<close> (the quote is the character 0x27). The dot
  matches every character but the newline and the star is greedy: the match starts at the
  leftmost place where the text \<^verbatim>\<open>var stateToken = '\<close> is followed, on the same line, by a
  quote and a semicolon, and the group runs to the last quote and semicolon of that line.
  \<open>greedy_until sep l\<close> is the longest \<open>t\<close> with \<open>l = t @ sep @ u\<close>.
\<close>

fun greedy_until :: "string \<Rightarrow> string \<Rightarrow> string option" where
  "greedy_until sep [] = (if sep = [] then Some [] else None)"
| "greedy_until sep (c # cs) =
     (case greedy_until sep cs of
        Some t \<Rightarrow> Some (c # t)
      | None \<Rightarrow> if prefix sep (c # cs) then Some [] else None)"

definition state_token_prefix :: string where
  "state_token_prefix = ''var stateToken = '' @ [CHR 0x27]"

definition state_token_suffix :: string where
  "state_token_suffix = [CHR 0x27, CHR '';'']"

fun state_token_search :: "string \<Rightarrow> string option" where
  "state_token_search [] = None"
| "state_token_search (c # cs) =
     (if prefix state_token_prefix (c # cs) then
        (case greedy_until state_token_suffix
                (takeWhile (\<lambda>x. x \<noteq> CHR 0x0A)
                   (drop (length state_token_prefix) (c # cs))) of
           Some t \<Rightarrow> Some t
         | None \<Rightarrow> state_token_search cs)
      else state_token_search cs)"

text \<open>
  \<^verbatim>\<open>codecs.decode(s, "unicode-escape")\<close> changes nothing in a string of ASCII characters
  without a backslash (the character 0x5C); what it makes of any other string, a decoded
  string or a UnicodeDecodeError, is left to the parameter \<open>escape_other\<close>.
\<close>

definition unicode_escape :: "(string \<Rightarrow> error + string) \<Rightarrow> string \<Rightarrow> error + string" where
  "unicode_escape escape_other s =
     (if list_all (\<lambda>c. (of_char c :: nat) < 128 \<and> c \<noteq> CHR 0x5C) s then Inr s
      else escape_other s)"

text \<open>
  \<^verbatim>\<open>extract_state_token\<close>. The HTML parser is a parameter.
  \<^verbatim>\<open>soup.find("script", text=pattern)\<close> is the first script element whose string matches.
\<close>

definition extract_state_token ::
  "(string \<Rightarrow> node list) \<Rightarrow> (string \<Rightarrow> error + string) \<Rightarrow> string \<Rightarrow> error + string option" where
  "extract_state_token html_parser escape_other html =
     (case List.find (\<lambda>t. tag_name t = ''script'' \<and>
                          (case tag_string t of None \<Rightarrow> False
                           | Some s \<Rightarrow> state_token_search s \<noteq> None))
             (concat (map all_tags (html_parser html))) of
        None \<Rightarrow> Inr None
      | Some script \<Rightarrow>
          (case state_token_search (tag_text script) of
             None \<Rightarrow> Inr None
           | Some encoded_token \<Rightarrow>
               and_then (unicode_escape escape_other encoded_token) (\<lambda>state_token.
                 Inr (Some state_token))))"

text \<open>
  The cookies of a reply are a \<^verbatim>\<open>RequestsCookieJar\<close>, here the list of its cookies in the
  order of iteration, each a name and a value; the value is \<^verbatim>\<open>None\<close> for a cookie sent
  without one, and two cookies may bear one name (for two domains or two paths).
  \<^verbatim>\<open>jar.get(name)\<close> walks the whole jar (\<^verbatim>\<open>_find_no_duplicates\<close>): at a cookie of that name
  it raises CookieConflictError if a value has been found before, and keeps the cookie's
  value otherwise; at the end a value that is \<^verbatim>\<open>None\<close> or empty makes it raise KeyError,
  which \<^verbatim>\<open>get\<close> turns into the default \<^verbatim>\<open>None\<close>.
\<close>

type_synonym cookie_jar = "(string \<times> string option) list"

fun find_no_duplicates :: "string \<Rightarrow> cookie_jar \<Rightarrow> string option \<Rightarrow> error + string option" where
  "find_no_duplicates name [] to_return = Inr to_return"
| "find_no_duplicates name (cookie # jar) to_return =
     (if fst cookie = name then
        (if to_return \<noteq> None then Inl (Raised CookieConflictError)
         else find_no_duplicates name jar (snd cookie))
      else find_no_duplicates name jar to_return)"

definition jar_get :: "cookie_jar \<Rightarrow> string \<Rightarrow> error + string option" where
  "jar_get jar name =
     and_then (find_no_duplicates name jar None) (\<lambda>to_return.
       case to_return of
         None \<Rightarrow> Inr None
       | Some v \<Rightarrow> if v \<noteq> [] then Inr (Some v) else Inr None)"

text \<open>
  The transport \<^verbatim>\<open>HTTP_client\<close> is another module: a request gets a reply or ends in a
  failure, and changes the state \<open>'w\<close> of the outside world (the servers, the cookie jar).
  The requests issued are recorded in order.
\<close>

datatype request =
    HttpPost "string option" "(string \<times> string option) list"
  | HttpGet string "(string \<times> string option) list"

record http_response =
  response_cookies :: cookie_jar
  response_text :: string

record 'w session =
  requests_sent :: "request list"
  outside_world :: 'w

type_synonym 'w transport = "request \<Rightarrow> 'w \<Rightarrow> (error + http_response) \<times> 'w"

definition http_call ::
  "'w transport \<Rightarrow> request \<Rightarrow> 'w session \<Rightarrow> (error + http_response) \<times> 'w session" where
  "http_call http req s =
     (case http req (outside_world s) of
        (reply, w') \<Rightarrow> (reply, \<lparr>requests_sent = requests_sent s @ [req], outside_world = w'\<rparr>))"

text \<open>The dictionary \<^verbatim>\<open>send_saml_request\<close> builds; each entry is a string or \<^verbatim>\<open>None\<close>; the
  entry \<^verbatim>\<open>"response"\<close> is the field \<open>saml_blob\<close>.\<close>

record saml_response =
  saml_blob :: "string option"
  relay_state :: "string option"
  post_url :: "string option"

text \<open>
  \<^verbatim>\<open>send_saml_response(config, saml_response)\<close>. The configuration is a parameter of the
  source function and is not read by it. After the POST the source reads
  \<^verbatim>\<open>session_cookies.get("sid")\<close>, whose value it does not use, and then the state token.
  \<^verbatim>\<open>if state_token:\<close> is false for \<^verbatim>\<open>None\<close> and for the empty string.
\<close>

definition send_saml_response ::
  "'w transport \<Rightarrow> (string \<Rightarrow> node list) \<Rightarrow> (string \<Rightarrow> error + string) \<Rightarrow> okta
     \<Rightarrow> saml_response \<Rightarrow> 'w session \<Rightarrow> (error + cookie_jar) \<times> 'w session" where
  "send_saml_response http html_parser escape_other config saml_resp s =
     (let payload = [(''SAMLResponse'', saml_blob saml_resp),
                     (''RelayState'', relay_state saml_resp)];
          url = post_url saml_resp
      in case http_call http (HttpPost url payload) s of
           (Inl e, s1) \<Rightarrow> (Inl e, s1)
         | (Inr reply, s1) \<Rightarrow>
             (case jar_get (response_cookies reply) ''sid'' of
                Inl e \<Rightarrow> (Inl e, s1)
              | Inr sid \<Rightarrow>
                  (case extract_state_token html_parser escape_other (response_text reply) of
                     Inl e \<Rightarrow> (Inl e, s1)
                   | Inr None \<Rightarrow> (Inr (response_cookies reply), s1)
                   | Inr (Some state_token) \<Rightarrow>
                       if state_token \<noteq> [] then
                         (let myorg = ''https://newscorpdev2.oktapreview.com'';
                              myurl = myorg @ ''/login/token/redirect''
                          in case http_call http
                                    (HttpGet myurl [(''stateToken'', Some state_token)]) s1 of
                               (Inl e, s2) \<Rightarrow> (Inl e, s2)
                             | (Inr myresponse, s2) \<Rightarrow> (Inr (response_cookies myresponse), s2))
                       else (Inr (response_cookies reply), s1))))"

section \<open>The orchestrator and SAML chaining: \<^verbatim>\<open>idp_auth\<close> and \<^verbatim>\<open>saml2_authenticate\<close>\<close>

text \<open>
  The dictionary \<^verbatim>\<open>get_auth_properties\<close> returns always has the keys \<open>metadata\<close>,
  \<open>type\<close> and \<open>id\<close> (so the test \<^verbatim>\<open>"type" not in auth_properties\<close> of \<^verbatim>\<open>idp_auth\<close>
  never fires); the dictionary of \<^verbatim>\<open>get_saml_request\<close> has the keys \<open>base_url\<close>,
  \<open>post_url\<close>, \<open>relay_state\<close> and \<open>request\<close>.
\<close>

record auth_properties =
  prop_metadata :: json
  prop_type :: json
  prop_id :: json

record saml_request =
  base_url :: string
  request_post_url :: "string option"
  request_relay_state :: "string option"
  request_blob :: "string option"

text \<open>
  Configuration objects live in a store and are passed by reference: an address is an
  index into the list \<open>configs\<close>, and \<^verbatim>\<open>deepcopy(config)\<close> puts a copy at a new address.
  The state also holds the outside world \<open>'w\<close> (servers, user, cookie jar) and, as a
  record of what happened, the address and the content of the configuration at each
  entry into \<^verbatim>\<open>idp_auth\<close>.
\<close>

record 'w machine =
  configs :: "okta list"
  outside :: 'w
  idp_auth_calls :: "(nat \<times> okta) list"

text \<open>
  The functions that \<^verbatim>\<open>idp_auth\<close> and \<^verbatim>\<open>saml2_authenticate\<close> call. Each may change the
  outside world and fail. Those that the source hands the configuration object and that
  write to it somewhere below (\<^verbatim>\<open>user_authenticate\<close> through \<^verbatim>\<open>totp_approval\<close>,
  \<^verbatim>\<open>oauth2_authorize\<close> through \<^verbatim>\<open>get_client_id\<close>) return the new content of that object,
  about which nothing is assumed; \<^verbatim>\<open>send_saml_response\<close> receives the object and has no
  assignment to it; the others receive strings and dictionaries only.
\<close>

record ('w, 'c) collaborators =
  env_get_auth_properties :: "string \<Rightarrow> string \<Rightarrow> 'w \<Rightarrow> (error + auth_properties) \<times> 'w"
  env_user_authenticate :: "okta \<Rightarrow> 'w \<Rightarrow> (error + json) \<times> okta \<times> 'w"
  env_request_cookies :: "string \<Rightarrow> json \<Rightarrow> 'w \<Rightarrow> (error + 'c) \<times> 'w"
  env_oie_enabled :: "string \<Rightarrow> 'w \<Rightarrow> (error + bool) \<times> 'w"
  env_oauth2_authorize :: "okta \<Rightarrow> 'c \<Rightarrow> 'w \<Rightarrow> (error + 'c) \<times> okta \<times> 'w"
  env_get_saml_request :: "auth_properties \<Rightarrow> 'w \<Rightarrow> (error + saml_request) \<times> 'w"
  env_send_saml_request :: "saml_request \<Rightarrow> 'c \<Rightarrow> 'w \<Rightarrow> (error + saml_response) \<times> 'w"
  env_send_saml_response :: "okta \<Rightarrow> saml_response \<Rightarrow> 'w \<Rightarrow> (error + 'c) \<times> 'w"

text \<open>\<^verbatim>\<open>deepcopy(config)\<close> and \<^verbatim>\<open>config.okta["org"] = url\<close> on the store.\<close>

definition deepcopy :: "nat \<Rightarrow> 'w machine \<Rightarrow> nat \<times> 'w machine" where
  "deepcopy a m = (length (configs m), m\<lparr>configs := configs m @ [configs m ! a]\<rparr>)"

definition set_org :: "nat \<Rightarrow> string \<Rightarrow> 'w machine \<Rightarrow> 'w machine" where
  "set_org a url m = m\<lparr>configs := (configs m)[a := (configs m ! a)\<lparr>org := url\<rparr>]\<rparr>"

text \<open>
  \<^verbatim>\<open>idp_auth(config)\<close> and \<^verbatim>\<open>saml2_authenticate(config, auth_properties)\<close> call each
  other, once per identity provider in the chain, and the source puts no bound on the depth.
  The first argument bounds the depth of the calls; \<open>None\<close> means the bound was reached.
\<close>

fun idp_auth ::
    "nat \<Rightarrow> ('w, 'c) collaborators \<Rightarrow> nat \<Rightarrow> 'w machine \<Rightarrow> ((error + 'c) \<times> 'w machine) option"
  and saml2_authenticate ::
    "nat \<Rightarrow> ('w, 'c) collaborators \<Rightarrow> nat \<Rightarrow> auth_properties \<Rightarrow> 'w machine
       \<Rightarrow> ((error + 'c) \<times> 'w machine) option" where
  "idp_auth 0 env config m = None"
| "idp_auth (Suc depth) env config m =
     (let m0 = m\<lparr>idp_auth_calls := idp_auth_calls m @ [(config, configs m ! config)]\<rparr> in
      case env_get_auth_properties env (username (configs m0 ! config))
             (org (configs m0 ! config)) (outside m0) of
        (Inl e, w) \<Rightarrow> Some (Inl e, m0\<lparr>outside := w\<rparr>)
      | (Inr auth_properties, w) \<Rightarrow>
          (let m1 = m0\<lparr>outside := w\<rparr> in
           case
             (if prop_type auth_properties = JStr ''OKTA'' then
                (case env_user_authenticate env (configs m1 ! config) (outside m1) of
                   (Inl e, c', w') \<Rightarrow>
                     Some (Inl e, m1\<lparr>configs := (configs m1)[config := c'], outside := w'\<rparr>)
                 | (Inr session_token, c', w') \<Rightarrow>
                     (case env_request_cookies env (org c') session_token w' of
                        (r, w'') \<Rightarrow>
                          Some (r, m1\<lparr>configs := (configs m1)[config := c'], outside := w''\<rparr>)))
              else if prop_type auth_properties = JStr ''SAML2'' then
                saml2_authenticate depth env config auth_properties m1
              else Some (Inl (Exit 1 (IdpDiscoveryNotSupported (prop_type auth_properties))), m1))
           of
             None \<Rightarrow> None
           | Some (Inl e, m2) \<Rightarrow> Some (Inl e, m2)
           | Some (Inr session_cookies, m2) \<Rightarrow>
               (case env_oie_enabled env (org (configs m2 ! config)) (outside m2) of
                  (Inl e, w') \<Rightarrow> Some (Inl e, m2\<lparr>outside := w'\<rparr>)
                | (Inr enabled, w') \<Rightarrow>
                    if enabled then
                      (case env_oauth2_authorize env (configs m2 ! config) session_cookies w' of
                         (r, c', w'') \<Rightarrow>
                           Some (r, m2\<lparr>configs := (configs m2)[config := c'], outside := w''\<rparr>))
                    else Some (Inr session_cookies, m2\<lparr>outside := w'\<rparr>))))"
| "saml2_authenticate 0 env config auth_properties m = None"
| "saml2_authenticate (Suc depth) env config auth_properties m =
     (case env_get_saml_request env auth_properties (outside m) of
        (Inl e, w) \<Rightarrow> Some (Inl e, m\<lparr>outside := w\<rparr>)
      | (Inr saml_req, w) \<Rightarrow>
          (case deepcopy config (m\<lparr>outside := w\<rparr>) of
             (saml2_config, m1) \<Rightarrow>
               (case idp_auth depth env saml2_config (set_org saml2_config (base_url saml_req) m1) of
                  None \<Rightarrow> None
                | Some (Inl e, m2) \<Rightarrow> Some (Inl e, m2)
                | Some (Inr session_cookies, m2) \<Rightarrow>
                    (case env_send_saml_request env saml_req session_cookies (outside m2) of
                       (Inl e, w') \<Rightarrow> Some (Inl e, m2\<lparr>outside := w'\<rparr>)
                     | (Inr saml_resp, w') \<Rightarrow>
                         (case env_send_saml_response env (configs m2 ! config) saml_resp w' of
                            (r, w'') \<Rightarrow> Some (r, m2\<lparr>outside := w''\<rparr>))))))"

text \<open>
  Two relations between the store before and after a call: every object that existed
  before is still there with the same content, except possibly the one at \<open>a\<close>; and the
  same with no exception.
\<close>

definition unchanged_except :: "nat \<Rightarrow> 'w machine \<Rightarrow> 'w machine \<Rightarrow> bool" where
  "unchanged_except a m m' \<longleftrightarrow>
     length (configs m) \<le> length (configs m')
     \<and> (\<forall>b<length (configs m). b \<noteq> a \<longrightarrow> configs m' ! b = configs m ! b)"

definition all_unchanged :: "'w machine \<Rightarrow> 'w machine \<Rightarrow> bool" where
  "all_unchanged m m' \<longleftrightarrow>
     length (configs m) \<le> length (configs m')
     \<and> (\<forall>b<length (configs m). configs m' ! b = configs m ! b)"

text \<open>Two factor descriptors as \<^verbatim>\<open>/api/v1/authn\<close> lists them, for the worked examples.\<close>

definition okta_push_factor :: json where
  "okta_push_factor =
     JObj [(''id'', JStr ''opf1''), (''factorType'', JStr ''push''), (''provider'', JStr ''OKTA'')]"

definition google_totp_factor :: json where
  "google_totp_factor =
     JObj [(''id'', JStr ''uft2''), (''factorType'', JStr ''token:software:totp''),
           (''provider'', JStr ''GOOGLE'')]"

text \<open>A configuration, discovery documents and dispatch inputs for the worked examples.\<close>

definition example_config :: okta where
  "example_config =
     \<lparr>org = ''https://acme.okta.com'', username = ''jane'', password = ''secret'',
      mfa = None, mfa_response = None, oauth_client_id = None\<rparr>"

definition discovery_without_grant :: json where
  "discovery_without_grant =
     JObj [(''authorization_endpoint'', JStr ''https://acme.okta.com/oauth2/v1/authorize''),
           (''token_endpoint'', JStr ''https://acme.okta.com/oauth2/v1/token''),
           (''grant_types_supported'', JArr [JStr ''implicit'', JStr ''refresh_token'']),
           (''response_types_supported'', JArr [JStr ''code'', JStr ''token'']),
           (''scopes_supported'', JArr [JStr ''openid''])]"

definition discovery_without_token_endpoint :: json where
  "discovery_without_token_endpoint =
     JObj [(''authorization_endpoint'', JStr ''https://acme.okta.com/oauth2/v1/authorize''),
           (''grant_types_supported'', JArr [JStr ''authorization_code'']),
           (''response_types_supported'', JArr [JStr ''code'']),
           (''scopes_supported'', JArr [JStr ''openid''])]"

definition discovery_complete :: json where
  "discovery_complete =
     JObj [(''authorization_endpoint'', JStr ''https://acme.okta.com/oauth2/v1/authorize''),
           (''token_endpoint'', JStr ''https://acme.okta.com/oauth2/v1/token''),
           (''grant_types_supported'', JArr [JStr ''authorization_code'']),
           (''response_types_supported'', JArr [JStr ''code'']),
           (''scopes_supported'', JArr [JStr ''openid''])]"

definition flow_granted :: "okta \<Rightarrow> json \<Rightarrow> 'c \<Rightarrow> (error + json) \<times> okta" where
  "flow_granted config oauth2_config session_cookies =
     (Inr (JObj [(''access_token'', JStr ''eyJraWQ'')]),
      config\<lparr>oauth_client_id := Some ''okta.2b1959c8''\<rparr>)"

definition primary_auth_mfa_required :: json where
  "primary_auth_mfa_required =
     JObj [(''stateToken'', JStr ''00abc''), (''status'', JStr ''MFA_REQUIRED''),
           (''_embedded'', JObj [(''factors'', JArr [okta_push_factor, google_totp_factor])])]"

definition selected_totp_factor :: json where
  "selected_totp_factor =
     JObj [(''stateToken'', JStr ''00abc''), (''status'', JStr ''MFA_CHALLENGE''),
           (''_embedded'', JObj [(''factor'', google_totp_factor)])]"

definition totp_world :: "json \<Rightarrow> mfa_world" where
  "totp_world reply =
     \<lparr>duo_verify = Inr (JObj []), push_replies = [], totp_verify = reply,
      verification_code = ''123456''\<rparr>"

definition invalid_passcode_reply :: json where
  "invalid_passcode_reply =
     JObj [(''errorCode'', JStr ''E0000068''), (''errorSummary'', JStr ''Invalid Passcode/Answer'')]"

text \<open>Parsed documents for the worked examples.\<close>

definition saml_input :: "string \<Rightarrow> node" where
  "saml_input v = Tag ''input'' [(''type'', ''hidden''), (''name'', ''SAMLResponse''), (''value'', v)] []"

definition saml_form :: "node list \<Rightarrow> node list" where
  "saml_form inputs =
     [Tag ''html'' [] [Tag ''body'' []
        [Tag ''form'' [(''id'', ''appForm''), (''action'', ''https://acme.okta.com/sso/saml'')]
           (inputs @ [Tag ''input'' [(''name'', ''RelayState''), (''value'', ''foobar'')] []])]]]"

text \<open>
  A relying party for the worked examples: it answers the posted SAML response with a page
  whose script holds a state token, and the redirect request with the session cookies.
\<close>

definition example_saml_response :: saml_response where
  "example_saml_response =
     \<lparr>saml_blob = Some ''QUJD'', relay_state = Some ''foobar'',
      post_url = Some ''https://acme.okta.com/sso/saml2/0oa1''\<rparr>"

text \<open>A code verifier of 43 letters and digits, its UTF-8 bytes and their SHA-256 digest
  as \<^verbatim>\<open>hashlib\<close> computes it.\<close>

definition example_code_verifier :: string where
  "example_code_verifier = ''dBjftJeZ4CVPmB92K27uhbUJU1p1rwW1gFWFOEjXk09''"

definition example_code_verifier_bytes :: "byte list" where
  "example_code_verifier_bytes =
     [0x64, 0x42, 0x6a, 0x66, 0x74, 0x4a, 0x65, 0x5a, 0x34, 0x43, 0x56, 0x50,
     0x6d, 0x42, 0x39, 0x32, 0x4b, 0x32, 0x37, 0x75, 0x68, 0x62, 0x55, 0x4a,
     0x55, 0x31, 0x70, 0x31, 0x72, 0x77, 0x57, 0x31, 0x67, 0x46, 0x57, 0x46,
     0x4f, 0x45, 0x6a, 0x58, 0x6b, 0x30, 0x39]"

definition example_digest :: "byte list" where
  "example_digest =
     [0xf1, 0x37, 0x84, 0x34, 0x23, 0x67, 0x6a, 0xeb, 0xfd, 0x8a, 0xef, 0x3c,
     0x17, 0xfa, 0x20, 0x83, 0x08, 0xef, 0xca, 0x0c, 0x8d, 0x71, 0x05, 0x5f,
     0x30, 0xd4, 0x11, 0xca, 0x04, 0x6a, 0xb6, 0xad]"

text \<open>
  The page \<^verbatim>\<open><html><head><script>var stateToken = '00xyz';</script></head></html>\<close> and a
  parser that knows the tree of this one page.
\<close>

definition state_token_script :: string where
  "state_token_script = ''var stateToken = '' @ [CHR 0x27] @ ''00xyz'' @ [CHR 0x27] @ '';''"

definition state_token_page :: string where
  "state_token_page =
     ''<html><head><script>'' @ state_token_script @ ''</script></head></html>''"

text \<open>The worked examples decode no string with a backslash or beyond ASCII.\<close>

definition escape_refused :: "string \<Rightarrow> error + string" where
  "escape_refused s = Inl (Raised UnicodeDecodeError)"

definition example_parser :: "string \<Rightarrow> node list" where
  "example_parser html =
     (if html = state_token_page then
        [Tag ''html'' [] [Tag ''head'' [] [Tag ''script'' [] [Leaf state_token_script]]]]
      else [])"

definition relying_party :: "nat transport" where
  "relying_party req n =
     (case req of
        HttpPost url payload \<Rightarrow>
          (Inr \<lparr>response_cookies = [(''JSESSIONID'', Some ''A1'')],
                response_text = state_token_page\<rparr>, n + 1)
      | HttpGet url params \<Rightarrow>
          (Inr \<lparr>response_cookies = [(''sid'', Some ''102abc''), (''from'', Some url)],
                response_text = []\<rparr>, n + 1))"


text \<open>
  A one-hop chain for the worked examples: the relying party \<open>acme\<close> sends its users to an
  identity provider that authenticates them locally with a one-time code; both run the
  identity engine. The outside world counts the calls made.
\<close>

definition example_saml_request :: saml_request where
  "example_saml_request =
     \<lparr>base_url = ''https://idp.example.com'',
      request_post_url = Some ''https://idp.example.com/app/acme/sso/saml'',
      request_relay_state = Some ''foobar'', request_blob = Some ''PHNhbWxwOkF1dGhuUmVxdWVzdD4=''\<rparr>"

definition one_hop :: "(nat, cookie_jar) collaborators" where
  "one_hop =
     \<lparr>env_get_auth_properties = (\<lambda>userid url w.
        (Inr \<lparr>prop_metadata = JStr ''https://acme.okta.com/api/v1/idps/0oa1/metadata.xml'',
              prop_type = (if url = ''https://acme.okta.com'' then JStr ''SAML2'' else JStr ''OKTA''),
              prop_id = JStr ''0oa1''\<rparr>, w + 1)),
      env_user_authenticate = (\<lambda>c w.
        (Inr (JStr ''20111abc''), c\<lparr>mfa_response := Some ''123456''\<rparr>, w + 1)),
      env_request_cookies = (\<lambda>url session_token w. (Inr [(''sid'', Some ''idp-102'')], w + 1)),
      env_oie_enabled = (\<lambda>url w. (Inr True, w + 1)),
      env_oauth2_authorize = (\<lambda>c session_cookies w.
        (case oauth2_authorize (\<lambda>url. discovery_complete) flow_granted c session_cookies of
           (r, c') \<Rightarrow> (r, c', w + 1))),
      env_get_saml_request = (\<lambda>props w. (Inr example_saml_request, w + 1)),
      env_send_saml_request = (\<lambda>req session_cookies w. (Inr example_saml_response, w + 1)),
      env_send_saml_response = (\<lambda>c resp w.
        (case send_saml_response relying_party example_parser escape_refused c resp
                \<lparr>requests_sent = [], outside_world = w\<rparr> of
           (r, s) \<Rightarrow> (r, outside_world s)))\<rparr>"

definition acme_properties :: auth_properties where
  "acme_properties =
     \<lparr>prop_metadata = JStr ''https://acme.okta.com/api/v1/idps/0oa1/metadata.xml'',
      prop_type = JStr ''SAML2'', prop_id = JStr ''0oa1''\<rparr>"

definition start_machine :: "nat machine" where
  "start_machine = \<lparr>configs = [example_config], outside = 0, idp_auth_calls = []\<rparr>"

section \<open>Substring test\<close>

lemma str_in_iff: "str_in s t \<longleftrightarrow> (\<exists>p q. t = p @ s @ q)"
proof (induction t)
  case Nil
  then show ?case by auto
next
  case (Cons c cs)
  show ?case
  proof
    assume "str_in s (c # cs)"
    then consider "prefix s (c # cs)" | "str_in s cs" by auto
    then show "\<exists>p q. c # cs = p @ s @ q"
    proof cases
      case 1
      then obtain q where "c # cs = s @ q" by (auto simp: prefix_def)
      then have "c # cs = [] @ s @ q" by simp
      then show ?thesis by blast
    next
      case 2
      with Cons obtain p q where "cs = p @ s @ q" by auto
      then have "c # cs = (c # p) @ s @ q" by simp
      then show ?thesis by blast
    qed
  next
    assume "\<exists>p q. c # cs = p @ s @ q"
    then obtain p q where pq: "c # cs = p @ s @ q" by auto
    show "str_in s (c # cs)"
    proof (cases p)
      case Nil
      with pq have "prefix s (c # cs)" by (simp add: prefix_def)
      then show ?thesis by simp
    next
      case (Cons d p')
      with pq have "cs = p' @ s @ q" by simp
      with Cons.IH have "str_in s cs" by blast
      then show ?thesis by simp
    qed
  qed
qed

section \<open>Factor selection\<close>

lemma mfa_indices_set:
  "p \<noteq> [] \<Longrightarrow> set (mfa_indices (Some p) labels) = selector_matches p labels"
  by (auto simp: mfa_indices_def selector_matches_def in_set_enumerate_eq str_in_iff image_iff) blast

lemma mfa_indices_distinct: "distinct (mfa_indices preset labels)"
proof -
  have "distinct (map fst (enumerate 0 labels))" by (simp add: map_fst_enumerate del: upt.simps)
  then show ?thesis
    by (auto simp: mfa_indices_def distinct_map_filter split: option.splits)
qed

lemma mfa_indices_length:
  "p \<noteq> [] \<Longrightarrow> length (mfa_indices (Some p) labels) = card (selector_matches p labels)"
  using mfa_indices_set [of p labels] mfa_indices_distinct [of "Some p" labels]
  by (metis distinct_card)

lemma mfa_available_label:
  "available_mfas other [JObj [(''provider'', JStr a), (''factorType'', JStr b), (''id'', JStr c)]]
     = Inr [a @ ''_'' @ b @ ''_'' @ c]"
  by (simp add: available_mfas_def mfa_label_def and_then_def)

lemma mfa_index_selection:
  assumes "p \<noteq> []"
  shows "(selector_matches p labels = {} \<longrightarrow>
            mfa_index sel (Some p) labels opts = Inr (sel opts))
       \<and> (\<forall>i. selector_matches p labels = {i} \<longrightarrow>
            mfa_index sel (Some p) labels opts = Inr i)
       \<and> (1 < card (selector_matches p labels) \<longrightarrow>
            mfa_index sel (Some p) labels opts = Inl (Exit 1 MfaNotUnique))
       \<and> (selector_matches p labels \<noteq> {} \<longrightarrow>
            mfa_index sel (Some p) labels opts = mfa_index sel' (Some p) labels opts')"
proof (intro conjI allI impI)
  assume "selector_matches p labels = {}"
  then show "mfa_index sel (Some p) labels opts = Inr (sel opts)"
    using mfa_indices_set [OF assms, of labels] by (auto simp: mfa_index_def Let_def)
next
  fix i assume one: "selector_matches p labels = {i}"
  then have len: "length (mfa_indices (Some p) labels) = 1"
    using mfa_indices_length [OF assms, of labels] by simp
  then have "mfa_indices (Some p) labels ! 0 \<in> set (mfa_indices (Some p) labels)"
    by (simp add: nth_mem)
  then have "mfa_indices (Some p) labels ! 0 = i"
    using mfa_indices_set [OF assms, of labels] one by simp
  with len show "mfa_index sel (Some p) labels opts = Inr i"
    by (auto simp: mfa_index_def Let_def)
next
  assume "1 < card (selector_matches p labels)"
  then show "mfa_index sel (Some p) labels opts = Inl (Exit 1 MfaNotUnique)"
    using mfa_indices_length [OF assms, of labels] by (auto simp: mfa_index_def Let_def)
next
  assume "selector_matches p labels \<noteq> {}"
  then have "length (mfa_indices (Some p) labels) \<noteq> 0"
    using mfa_indices_set [OF assms, of labels] by auto
  then show "mfa_index sel (Some p) labels opts = mfa_index sel' (Some p) labels opts'"
    by (auto simp: mfa_index_def Let_def)
qed

lemma selector_matches_code:
  "selector_matches p labels = set (filter (\<lambda>i. str_in p (labels ! i)) [0..<length labels])"
  by (auto simp: selector_matches_def str_in_iff)

lemma map_err_Inr:
  "map_err f xs = Inr ys \<Longrightarrow> length ys = length xs \<and> (\<forall>i<length xs. f (xs ! i) = Inr (ys ! i))"
proof (induction xs arbitrary: ys)
  case Nil
  then show ?case by simp
next
  case (Cons x xs)
  from Cons.prems obtain y ys' where y: "f x = Inr y" and ys': "map_err f xs = Inr ys'"
    and ys: "ys = y # ys'"
    by (auto simp: and_then_def split: sum.splits)
  from Cons.IH [OF ys'] have "length ys' = length xs"
    and "\<forall>i<length xs. f (xs ! i) = Inr (ys' ! i)" by simp_all
  with y ys show ?case by (auto simp: nth_Cons split: nat.splits)
qed

lemma mfa_label_Inr:
  "mfa_label other d = Inr l \<Longrightarrow>
     \<exists>a b c. py_item d ''provider'' = Inr a \<and> py_item d ''factorType'' = Inr b
       \<and> py_item d ''id'' = Inr c
       \<and> l = py_format other a @ ''_'' @ py_format other b @ ''_'' @ py_format other c"
  by (auto simp: mfa_label_def and_then_def split: sum.splits)

text \<open>
  Claim C4. With a non-empty preferred selector and labels built from the factor list as
  provider, factor type and id joined by underscores, the index is resolved from the set
  of labels that contain the selector as a substring: no such label gives the interactive
  choice, exactly one gives that label's index, more than one ends the run with exit
  status 1 (not unique); and whenever some label matches, the result depends on the
  selector and the factor list alone, not on the interactive collaborator.
\<close>

theorem mfa_selection:
  assumes "p \<noteq> []" and "available_mfas other opts = Inr labels"
  shows "length labels = length opts
    \<and> (\<forall>i<length opts. \<exists>a b c.
           py_item (opts ! i) ''provider'' = Inr a \<and> py_item (opts ! i) ''factorType'' = Inr b
         \<and> py_item (opts ! i) ''id'' = Inr c
         \<and> labels ! i = py_format other a @ ''_'' @ py_format other b @ ''_'' @ py_format other c)
    \<and> (selector_matches p labels = {} \<longrightarrow>
           mfa_challenge_index other sel (Some p) opts = Inr (sel opts))
    \<and> (\<forall>i. selector_matches p labels = {i} \<longrightarrow>
           mfa_challenge_index other sel (Some p) opts = Inr i)
    \<and> (1 < card (selector_matches p labels) \<longrightarrow>
           mfa_challenge_index other sel (Some p) opts = Inl (Exit 1 MfaNotUnique))
    \<and> (selector_matches p labels \<noteq> {} \<longrightarrow>
           mfa_challenge_index other sel (Some p) opts
             = mfa_challenge_index other sel' (Some p) opts)"
proof -
  from assms(2) have m: "map_err (mfa_label other) opts = Inr labels"
    by (simp add: available_mfas_def)
  have len: "length labels = length opts"
    using map_err_Inr [OF m] by simp
  have form: "\<forall>i<length opts. \<exists>a b c.
           py_item (opts ! i) ''provider'' = Inr a \<and> py_item (opts ! i) ''factorType'' = Inr b
         \<and> py_item (opts ! i) ''id'' = Inr c
         \<and> labels ! i = py_format other a @ ''_'' @ py_format other b @ ''_'' @ py_format other c"
    using map_err_Inr [OF m] mfa_label_Inr by blast
  have idx: "mfa_challenge_index other s (Some p) opts = mfa_index s (Some p) labels opts" for s
    using assms(2) by (simp add: mfa_challenge_index_def and_then_def)
  show ?thesis
    using len form mfa_index_selection [OF assms(1), of labels sel opts sel' opts]
    by (simp add: idx)
qed

theorem mfa_selection_witness:
  "mfa_challenge_index (\<lambda>_. []) (\<lambda>_. 7) (Some ''push'') [okta_push_factor, google_totp_factor]
     = Inr 0
   \<and> mfa_challenge_index (\<lambda>_. []) (\<lambda>_. 7) (Some ''DUO'') [okta_push_factor, google_totp_factor]
     = Inr 7
   \<and> mfa_challenge_index (\<lambda>_. []) (\<lambda>_. 7) (Some ''_'') [okta_push_factor, google_totp_factor]
     = Inl (Exit 1 MfaNotUnique)"
proof -
  let ?ls = "[''OKTA_push_opf1'', ''GOOGLE_token:software:totp_uft2'']"
  let ?opts = "[okta_push_factor, google_totp_factor]"
  have l: "available_mfas (\<lambda>_. []) ?opts = Inr ?ls"
    by (simp add: available_mfas_def mfa_label_def and_then_def okta_push_factor_def
        google_totp_factor_def)
  have a: "selector_matches ''push'' ?ls = {0}"
    by (simp add: selector_matches_code prefix_def)
  have b: "selector_matches ''DUO'' ?ls = {}"
    by (simp add: selector_matches_code prefix_def)
  have c: "1 < card (selector_matches ''_'' ?ls)"
    by (simp add: selector_matches_code prefix_def)
  have p: "''push'' \<noteq> []" "''DUO'' \<noteq> []" "''_'' \<noteq> []" by simp_all
  show ?thesis
    using mfa_selection [OF p(1) l, of "\<lambda>_. 7"] a
      mfa_selection [OF p(2) l, of "\<lambda>_. 7"] b
      mfa_selection [OF p(3) l, of "\<lambda>_. 7"] c
    by simp
qed

section \<open>Push approval\<close>

lemma py_in_obj_item:
  "py_in k (JObj kvs) = Inr True \<Longrightarrow> \<exists>v. py_item (JObj kvs) k = Inr v"
  by (cases "map_of kvs k") (auto simp: map_of_eq_None_iff)

lemma push_poll_cases:
  assumes "push_poll r d = (out, tr)"
  shows "(\<exists>e m. out = Inl e \<and> tr = Posted # m \<and> (m = [] \<or> (\<exists>t. m = [Masked t])))
       \<or> (\<exists>st res a m. out = Inr (st, res, d \<or> truthy a) \<and> correct_answer r = Inr a
             \<and> reply_status r = Inr st \<and> reply_result r = Inr res
             \<and> (m = [] \<or> (\<exists>t. m = [Masked t]))
             \<and> tr = Posted # m @ (if truthy a \<and> \<not> d then [Printed (NumberChallenge a)] else [])
                      @ [Slept])"
proof -
  define M where "M = and_then (py_in ''sessionToken'' r) (\<lambda>has.
             if has then and_then (py_item r ''sessionToken'') (\<lambda>t. Inr [Masked t])
             else Inr [])"
  define R where "R = and_then (py_get r ''status'' (JStr ''UNKNOWN'')) (\<lambda>status.
                and_then (py_get r ''factorResult'' (JStr ''UNKNOWN'')) (\<lambda>result.
                and_then (correct_answer r) (\<lambda>answer. Inr (status, result, answer))))"
  have M_form: "m = [] \<or> (\<exists>t. m = [Masked t])" if "M = Inr m" for m
    using that by (auto simp: M_def and_then_def split: sum.splits if_splits)
  have R_form: "reply_status r = Inr st \<and> reply_result r = Inr res \<and> correct_answer r = Inr a"
    if "R = Inr (st, res, a)" for st res a
    using that by (auto simp: R_def and_then_def reply_status_def reply_result_def split: sum.splits)
  have unfold: "push_poll r d =
     (case M of Inl e \<Rightarrow> (Inl e, [Posted])
      | Inr masked \<Rightarrow>
          (case R of Inl e \<Rightarrow> (Inl e, Posted # masked)
           | Inr (status, result, answer) \<Rightarrow>
               if truthy answer \<and> \<not> d
               then (Inr (status, result, True),
                     Posted # masked @ [Printed (NumberChallenge answer), Slept])
               else (Inr (status, result, d), Posted # masked @ [Slept])))"
    unfolding push_poll_def M_def R_def ..
  show ?thesis
  proof (cases M)
    case (Inl e)
    with assms unfold show ?thesis by auto
  next
    case (Inr m)
    note m = this M_form [OF this]
    show ?thesis
    proof (cases R)
      case (Inl e)
      with assms unfold m show ?thesis by auto
    next
      case (Inr x)
      obtain st res a where x: "x = (st, res, a)" by (cases x)
      from R_form Inr x have f: "reply_status r = Inr st" "reply_result r = Inr res"
        "correct_answer r = Inr a" by simp_all
      show ?thesis
      proof (cases "truthy a \<and> \<not> d")
        case True
        with assms unfold m(1) Inr x have "out = Inr (st, res, d \<or> truthy a)"
          and "tr = Posted # m @ (if truthy a \<and> \<not> d then [Printed (NumberChallenge a)] else []) @ [Slept]"
          by auto
        with f m(2) show ?thesis by blast
      next
        case False
        with assms unfold m(1) Inr x have "out = Inr (st, res, d \<or> truthy a)"
          and "tr = Posted # m @ (if truthy a \<and> \<not> d then [Printed (NumberChallenge a)] else []) @ [Slept]"
          by auto
        with f m(2) show ?thesis by blast
      qed
    qed
  qed
qed

lemma push_poll_well_formed:
  assumes "well_formed r"
  shows "\<exists>st res d' tr. push_poll r d = (Inr (st, res, d'), tr) \<and> reply_status r = Inr st
           \<and> reply_result r = Inr res \<and> polls tr = 1 \<and> sleeps tr = 1"
proof -
  from assms obtain kvs a where r: "r = JObj kvs" and a: "correct_answer r = Inr a"
    by (auto simp: well_formed_def split: json.splits sum.splits)
  obtain out tr where p: "push_poll r d = (out, tr)" by (cases "push_poll r d")
  have "\<exists>x. out = Inr x"
  proof (cases "py_in ''sessionToken'' r = Inr True")
    case True
    with py_in_obj_item r obtain v where "py_item r ''sessionToken'' = Inr v" by blast
    with True p r a show ?thesis
      by (auto simp: push_poll_def and_then_def split: if_splits)
  next
    case False
    with r have "py_in ''sessionToken'' r = Inr False" by auto
    with p r a show ?thesis
      by (auto simp: push_poll_def and_then_def split: if_splits)
  qed
  with push_poll_cases [OF p] show ?thesis 
    using p by (auto simp: polls_def sleeps_def)
qed

lemma push_loop_done:
  "\<not> (status = JStr ''MFA_CHALLENGE'' \<and> result = JStr ''WAITING'') \<Longrightarrow>
     push_loop rs status result response d = (Some (Inr (status, result, response)), [])"
  by (cases rs) auto

lemma push_loop_waiting:
  assumes "list_all (\<lambda>w. well_formed w \<and> is_waiting w) ws"
  shows "fst (push_loop ws (JStr ''MFA_CHALLENGE'') (JStr ''WAITING'') resp d) = None"
  using assms
proof (induction ws arbitrary: resp d)
  case Nil
  then show ?case by simp
next
  case (Cons w ws)
  then have wf: "well_formed w" and wt: "is_waiting w" by simp_all
  from push_poll_well_formed [OF wf, of d] wt
  obtain d' tr where p: "push_poll w d = (Inr (JStr ''MFA_CHALLENGE'', JStr ''WAITING'', d'), tr)"
    by (auto simp: is_waiting_def)
  from Cons have "fst (push_loop ws (JStr ''MFA_CHALLENGE'') (JStr ''WAITING'') w d') = None"
    by simp
  with p show ?case
    by (cases "push_loop ws (JStr ''MFA_CHALLENGE'') (JStr ''WAITING'') w d'") simp
qed

lemma push_loop_ends:
  assumes "list_all (\<lambda>w. well_formed w \<and> is_waiting w) ws"
    and "well_formed r" and "\<not> is_waiting r"
    and "reply_status r = Inr status" and "reply_result r = Inr result"
  shows "fst (push_loop (ws @ r # rest) (JStr ''MFA_CHALLENGE'') (JStr ''WAITING'') resp d)
           = Some (Inr (status, result, r))
       \<and> polls (snd (push_loop (ws @ r # rest) (JStr ''MFA_CHALLENGE'') (JStr ''WAITING'') resp d))
           = length ws + 1
       \<and> sleeps (snd (push_loop (ws @ r # rest) (JStr ''MFA_CHALLENGE'') (JStr ''WAITING'') resp d))
           = length ws + 1"
  using assms(1)
proof (induction ws arbitrary: resp d)
  case Nil
  from push_poll_well_formed [OF assms(2), of d] assms(4,5)
  obtain d' tr where p: "push_poll r d = (Inr (status, result, d'), tr)" and "polls tr = 1"
    and "sleeps tr = 1"
    by auto
  moreover from assms(3,4,5)
  have "\<not> (status = JStr ''MFA_CHALLENGE'' \<and> result = JStr ''WAITING'')"
    by (auto simp: is_waiting_def)
  ultimately show ?case by (simp add: push_loop_done)
next
  case (Cons w ws)
  then have wf: "well_formed w" and wt: "is_waiting w" by simp_all
  from push_poll_well_formed [OF wf, of d] wt
  obtain d' tr where p: "push_poll w d = (Inr (JStr ''MFA_CHALLENGE'', JStr ''WAITING'', d'), tr)"
    and "polls tr = 1" and "sleeps tr = 1"
    by (auto simp: is_waiting_def)
  moreover from Cons have "list_all (\<lambda>w. well_formed w \<and> is_waiting w) ws" by simp
  note Cons.IH [OF this, of w d']
  ultimately show ?case
    by (cases "push_loop (ws @ r # rest) (JStr ''MFA_CHALLENGE'') (JStr ''WAITING'') w d'")
      (simp add: polls_def sleeps_def)
qed


text \<open>
  Claim C3, as amended. The engine keeps polling exactly while the replies are waiting
  replies (status MFA_CHALLENGE and result WAITING): after waiting replies only it has not
  returned, and the first reply that is not a waiting reply ends the run at that poll. The
  run then succeeds with that reply when its status is SUCCESS and it holds a session
  token; otherwise it ends with exit status 2: denied when the result is REJECTED, window
  expired when it is TIMEOUT, not implemented for any other combination. The replies are
  well formed (dictionaries whose number-challenge path raises nothing). One pause of a
  second follows every poll, the last one included.
\<close>

theorem push_approval_outcome:
  assumes "list_all (\<lambda>w. well_formed w \<and> is_waiting w) ws"
    and "well_formed r" and "\<not> is_waiting r"
    and "reply_status r = Inr status" and "reply_result r = Inr result"
  shows "fst (push_approval ws) = None
       \<and> fst (push_approval (ws @ r # rest)) =
           Some (if status = JStr ''SUCCESS'' \<and> py_in ''sessionToken'' r = Inr True then Inr r
                 else if result = JStr ''REJECTED'' then Inl (Exit 2 PushDenied)
                 else if result = JStr ''TIMEOUT'' then Inl (Exit 2 PushWindowExpired)
                 else Inl (Exit 2 (PushNotImplemented result status)))
       \<and> polls (snd (push_approval (ws @ r # rest))) = length ws + 1
       \<and> sleeps (snd (push_approval (ws @ r # rest))) = length ws + 1"
proof -
  let ?run = "\<lambda>rs. push_loop rs (JStr ''MFA_CHALLENGE'') (JStr ''WAITING'') (JObj []) False"
  obtain o1 t1 where r1: "?run ws = (o1, t1)" by (cases "?run ws")
  obtain o2 t2 where r2: "?run (ws @ r # rest) = (o2, t2)" by (cases "?run (ws @ r # rest)")
  from push_loop_waiting [OF assms(1), of "JObj []" False] r1 have "o1 = None" by simp
  with r1 have a: "fst (push_approval ws) = None" by (simp add: push_approval_def)
  from push_loop_ends [OF assms, of rest "JObj []" False] r2
  have o2: "o2 = Some (Inr (status, result, r))" and t2: "polls t2 = length ws + 1"
    and t3: "sleeps t2 = length ws + 1" by simp_all
  from assms(2) obtain kvs where "r = JObj kvs"
    by (auto simp: well_formed_def split: json.splits)
  then have v: "push_verdict status result r =
           (if status = JStr ''SUCCESS'' \<and> py_in ''sessionToken'' r = Inr True then Inr r
                 else if result = JStr ''REJECTED'' then Inl (Exit 2 PushDenied)
                 else if result = JStr ''TIMEOUT'' then Inl (Exit 2 PushWindowExpired)
                 else Inl (Exit 2 (PushNotImplemented result status)))"
    by (auto simp: push_verdict_def push_failure_def and_then_def)
  from r2 o2 t2 t3
  have "fst (push_approval (ws @ r # rest)) = Some (push_verdict status result r)"
    and "polls (snd (push_approval (ws @ r # rest))) = length ws + 1"
    and "sleeps (snd (push_approval (ws @ r # rest))) = length ws + 1"
    by (simp_all add: push_approval_def polls_def sleeps_def)
  with a v show ?thesis by simp
qed

lemma well_formed_examples:
  "well_formed waiting_reply" "well_formed success_reply" "well_formed rejected_reply"
  "well_formed timeout_reply"
  by (simp_all add: well_formed_def correct_answer_def and_then_def waiting_reply_def
      success_reply_def rejected_reply_def timeout_reply_def)

theorem push_approval_outcome_witness:
  "fst (push_approval [waiting_reply, waiting_reply]) = None
   \<and> fst (push_approval [waiting_reply, waiting_reply, success_reply]) = Some (Inr success_reply)
   \<and> polls (snd (push_approval [waiting_reply, waiting_reply, success_reply])) = 3
   \<and> sleeps (snd (push_approval [waiting_reply, waiting_reply, success_reply])) = 3
   \<and> fst (push_approval [rejected_reply]) = Some (Inl (Exit 2 PushDenied))
   \<and> fst (push_approval [timeout_reply]) = Some (Inl (Exit 2 PushWindowExpired))"
proof -
  have w: "list_all (\<lambda>w. well_formed w \<and> is_waiting w) [waiting_reply, waiting_reply]"
    by (simp add: well_formed_examples) (simp add: is_waiting_def reply_status_def
        reply_result_def waiting_reply_def)
  have e: "list_all (\<lambda>w. well_formed w \<and> is_waiting w) []" by simp
  have s: "\<not> is_waiting success_reply" "reply_status success_reply = Inr (JStr ''SUCCESS'')"
    "reply_result success_reply = Inr (JStr ''UNKNOWN'')"
    "py_in ''sessionToken'' success_reply = Inr True"
    by (simp_all add: is_waiting_def reply_status_def reply_result_def success_reply_def)
  have j: "\<not> is_waiting rejected_reply"
    "reply_status rejected_reply = Inr (JStr ''MFA_CHALLENGE'')"
    "reply_result rejected_reply = Inr (JStr ''REJECTED'')"
    by (simp_all add: is_waiting_def reply_status_def reply_result_def rejected_reply_def)
  have t: "\<not> is_waiting timeout_reply"
    "reply_status timeout_reply = Inr (JStr ''MFA_CHALLENGE'')"
    "reply_result timeout_reply = Inr (JStr ''TIMEOUT'')"
    by (simp_all add: is_waiting_def reply_status_def reply_result_def timeout_reply_def)
  show ?thesis
    using push_approval_outcome [OF w well_formed_examples(2) s(1,2,3), of "[]"] s(4)
      push_approval_outcome [OF e well_formed_examples(3) j, of "[]"]
      push_approval_outcome [OF e well_formed_examples(4) t, of "[]"]
    by simp
qed

theorem push_token_without_success_counterexample:
  "py_in ''sessionToken'' rejected_reply_with_token = Inr True
   \<and> fst (push_approval [rejected_reply_with_token]) = Some (Inl (Exit 2 PushDenied))"
  by (simp add: rejected_reply_with_token_def push_approval_def push_poll_def and_then_def
      correct_answer_def push_verdict_def push_failure_def)

section \<open>The number challenge is shown once\<close>

lemma number_challenges_append [simp]:
  "number_challenges (a @ b) = number_challenges a @ number_challenges b"
  by (simp add: number_challenges_def)

lemma number_challenges_simps [simp]:
  "number_challenges [] = []"
  "number_challenges (Printed (NumberChallenge x) # tr) = x # number_challenges tr"
  "number_challenges (Printed WaitingForApproval # tr) = number_challenges tr"
  "number_challenges (Posted # tr) = number_challenges tr"
  "number_challenges (Masked t # tr) = number_challenges tr"
  "number_challenges (Slept # tr) = number_challenges tr"
  by (simp_all add: number_challenges_def)

lemma polls_simps [simp]:
  "polls [] = 0" "polls (Posted # tr) = Suc (polls tr)" "polls (Masked t # tr) = polls tr"
  "polls (Slept # tr) = polls tr" "polls (Printed c # tr) = polls tr"
  "polls (a @ b) = polls a + polls b"
  by (simp_all add: polls_def)

lemma sleeps_simps [simp]:
  "sleeps [] = 0" "sleeps (Posted # tr) = sleeps tr" "sleeps (Masked t # tr) = sleeps tr"
  "sleeps (Slept # tr) = Suc (sleeps tr)" "sleeps (Printed c # tr) = sleeps tr"
  "sleeps (a @ b) = sleeps a + sleeps b"
  by (simp_all add: sleeps_def)

lemma push_loop_displayed:
  "number_challenges (snd (push_loop rs status result resp True)) = []"
proof (induction rs arbitrary: status result resp)
  case Nil
  then show ?case by simp
next
  case (Cons r rs)
  obtain out tr where p: "push_poll r True = (out, tr)" by (cases "push_poll r True")
  show ?case
  proof (cases "status = JStr ''MFA_CHALLENGE'' \<and> result = JStr ''WAITING''")
    case False
    then show ?thesis by auto
  next
    case True
    from push_poll_cases [OF p] consider
      (err) e m where "out = Inl e" "tr = Posted # m" "m = [] \<or> (\<exists>t. m = [Masked t])"
    | (ok) st res a m where "out = Inr (st, res, True \<or> truthy a)"
        "m = [] \<or> (\<exists>t. m = [Masked t])"
        "tr = Posted # m @ (if truthy a \<and> \<not> True then [Printed (NumberChallenge a)] else []) @ [Slept]"
        "correct_answer r = Inr a"
      by blast
    then show ?thesis
    proof cases
      case err
      with p True show ?thesis by auto
    next
      case ok
      note o = ok(1) and m = ok(2) and tr = ok(3) and a = ok(4)
      from m tr have "number_challenges tr = []" by auto
      moreover obtain o' t' where l: "push_loop rs st res r True = (o', t')"
        by (cases "push_loop rs st res r True")
      moreover from Cons [of st res r] l have "number_challenges t' = []" by simp
      ultimately show ?thesis using p o True by simp
    qed
  qed
qed

lemma push_loop_first:
  "first_shown rs (snd (push_loop rs status result resp False))"
proof (induction rs arbitrary: status result resp)
  case Nil
  then show ?case by (simp add: first_shown_def)
next
  case (Cons r rs)
  obtain out tr where p: "push_poll r False = (out, tr)" by (cases "push_poll r False")
  show ?case
  proof (cases "status = JStr ''MFA_CHALLENGE'' \<and> result = JStr ''WAITING''")
    case False
    then show ?thesis by (auto simp: first_shown_def)
  next
    case True
    from push_poll_cases [OF p] consider
      (err) e m where "out = Inl e" "tr = Posted # m" "m = [] \<or> (\<exists>t. m = [Masked t])"
    | (ok) st res a m where "out = Inr (st, res, False \<or> truthy a)"
        "m = [] \<or> (\<exists>t. m = [Masked t])"
        "tr = Posted # m @ (if truthy a \<and> \<not> False then [Printed (NumberChallenge a)] else []) @ [Slept]"
        "correct_answer r = Inr a"
      by blast
    then show ?thesis
    proof cases
      case err
      with p True show ?thesis by (auto simp: first_shown_def)
    next
      case ok
      note o = ok(1) and m = ok(2) and tr = ok(3) and a = ok(4)
      obtain o' t' where l: "push_loop rs st res r (truthy a) = (o', t')"
        by (cases "push_loop rs st res r (truthy a)")
      from p o True l have whole: "snd (push_loop (r # rs) status result resp False) = tr @ t'"
        by simp
      show ?thesis
      proof (cases "truthy a")
        case True
        with l push_loop_displayed [of rs st res r] have t': "number_challenges t' = []" by simp
        from True tr have "tr @ t' = (Posted # m) @ Printed (NumberChallenge a) # (Slept # t')"
          by simp
        moreover from m have "number_challenges (Posted # m) = []" "polls (Posted # m) = 0 + 1"
          "sleeps (Posted # m) = 0" by auto
        moreover from t' have "number_challenges (Slept # t') = []" by simp
        moreover have "0 < length (r # rs)" "correct_answer ((r # rs) ! 0) = Inr a"
          "\<forall>j<0::nat. \<exists>v. correct_answer ((r # rs) ! j) = Inr v \<and> \<not> truthy v"
          using a by simp_all
        ultimately show ?thesis unfolding first_shown_def whole using True by blast
      next
        case False
        with tr m have tr0: "number_challenges tr = []" "polls tr = 1" "sleeps tr = 1" by auto
        from Cons [of st res r] l False have "first_shown rs t'" by simp
        then consider "number_challenges t' = []" |
          i b tr1 tr2 where "i < length rs" "t' = tr1 @ Printed (NumberChallenge b) # tr2"
            "number_challenges tr1 = []" "number_challenges tr2 = []"
            "polls tr1 = i + 1" "sleeps tr1 = i" "correct_answer (rs ! i) = Inr b" "truthy b"
            "\<forall>j<i. \<exists>v. correct_answer (rs ! j) = Inr v \<and> \<not> truthy v"
          unfolding first_shown_def by blast
        then show ?thesis
        proof cases
          case 1
          with tr0 show ?thesis unfolding first_shown_def whole by simp
        next
          case 2
          have "Suc i < length (r # rs)" using 2(1) by simp
          moreover have "tr @ t' = (tr @ tr1) @ Printed (NumberChallenge b) # tr2"
            using 2(2) by simp
          moreover have "number_challenges (tr @ tr1) = []" using tr0 2(3) by simp
          moreover have "polls (tr @ tr1) = Suc i + 1" "sleeps (tr @ tr1) = Suc i"
            using tr0 2(5,6) by simp_all
          moreover have "correct_answer ((r # rs) ! Suc i) = Inr b" using 2(7) by simp
          moreover have "\<forall>j<Suc i. \<exists>v. correct_answer ((r # rs) ! j) = Inr v \<and> \<not> truthy v"
          proof (intro allI impI)
            fix j assume "j < Suc i"
            then show "\<exists>v. correct_answer ((r # rs) ! j) = Inr v \<and> \<not> truthy v"
              using a False 2(9) by (cases j) auto
          qed
          ultimately show ?thesis unfolding first_shown_def whole using 2(4,8) by blast
        qed
      qed
    qed
  qed
qed


text \<open>
  Claim C8. In one run of the push polling, over any script of replies, the number
  challenge is printed at most once; when it is printed, the value is the answer carried by
  the first reply whose answer is truthy, it is printed during the poll of that reply
  (after that reply was fetched and before the pause that follows it), and no later reply
  makes it print again.
\<close>

theorem number_challenge_shown_once:
  "length (number_challenges (snd (push_approval rs))) \<le> 1
   \<and> (\<forall>a. number_challenges (snd (push_approval rs)) = [a] \<longrightarrow>
        (\<exists>i tr1 tr2. i < length rs
           \<and> snd (push_approval rs) = tr1 @ Printed (NumberChallenge a) # tr2
           \<and> polls tr1 = i + 1 \<and> sleeps tr1 = i
           \<and> correct_answer (rs ! i) = Inr a \<and> truthy a
           \<and> (\<forall>j<i. \<exists>v. correct_answer (rs ! j) = Inr v \<and> \<not> truthy v)))"
proof -
  let ?run = "push_loop rs (JStr ''MFA_CHALLENGE'') (JStr ''WAITING'') (JObj []) False"
  obtain out t where run: "?run = (out, t)" by (cases ?run)
  then have tr: "snd (push_approval rs) = Printed WaitingForApproval # t"
    by (auto simp: push_approval_def split: option.splits sum.splits)
  from push_loop_first [of rs "JStr ''MFA_CHALLENGE''" "JStr ''WAITING''" "JObj []"] run
  have "first_shown rs t" by simp
  then consider "number_challenges t = []" |
    i b tr1 tr2 where "i < length rs" "t = tr1 @ Printed (NumberChallenge b) # tr2"
      "number_challenges tr1 = []" "number_challenges tr2 = []"
      "polls tr1 = i + 1" "sleeps tr1 = i" "correct_answer (rs ! i) = Inr b" "truthy b"
      "\<forall>j<i. \<exists>v. correct_answer (rs ! j) = Inr v \<and> \<not> truthy v"
    unfolding first_shown_def by blast
  then show ?thesis
  proof cases
    case 1
    with tr show ?thesis by simp
  next
    case 2
    have n: "number_challenges (snd (push_approval rs)) = [b]"
      using tr 2(2,3,4) by simp
    have "snd (push_approval rs) = (Printed WaitingForApproval # tr1) @ Printed (NumberChallenge b) # tr2"
      using tr 2(2) by simp
    moreover have "polls (Printed WaitingForApproval # tr1) = i + 1"
      "sleeps (Printed WaitingForApproval # tr1) = i"
      using 2(5,6) by simp_all
    ultimately have "\<exists>i tr1 tr2. i < length rs
           \<and> snd (push_approval rs) = tr1 @ Printed (NumberChallenge b) # tr2
           \<and> polls tr1 = i + 1 \<and> sleeps tr1 = i
           \<and> correct_answer (rs ! i) = Inr b \<and> truthy b
           \<and> (\<forall>j<i. \<exists>v. correct_answer (rs ! j) = Inr v \<and> \<not> truthy v)"
      using 2(1,7,8,9) by blast
    with n show ?thesis by simp
  qed
qed

theorem number_challenge_shown_once_witness:
  "number_challenges (snd (push_approval
      [waiting_reply, waiting_reply_with_number 5, waiting_reply_with_number 7, success_reply]))
     = [JNum 5]
   \<and> length (number_challenges (snd (push_approval
      [waiting_reply, waiting_reply_with_number 5, waiting_reply_with_number 7, success_reply])))
     \<le> 1"
proof -
  have "number_challenges (snd (push_approval
      [waiting_reply, waiting_reply_with_number 5, waiting_reply_with_number 7, success_reply]))
     = [JNum 5]"
    by (simp add: push_approval_def push_poll_def and_then_def correct_answer_def
        waiting_reply_def waiting_reply_with_number_def success_reply_def push_verdict_def)
  then show ?thesis
    using number_challenge_shown_once [of
      "[waiting_reply, waiting_reply_with_number 5, waiting_reply_with_number 7, success_reply]"]
    by simp
qed

section \<open>The challenge dispatcher\<close>

lemma py_item_Inl_Raised: "py_item v k = Inl e \<Longrightarrow> \<exists>x. e = Raised x"
  by (cases v) (auto split: option.splits)

lemma py_in_False_item: "py_in k v = Inr False \<Longrightarrow> \<exists>x. py_item v k = Inl (Raised x)"
  by (cases v) (auto simp: map_of_eq_None_iff split: option.splits)

lemma mfa_session_token_missing:
  assumes "py_in ''sessionToken'' mfa_verify = Inr False"
  shows "\<exists>x. mfa_session_token primary_auth mfa_verify = Inl (Raised x)"
proof (cases "py_item primary_auth ''factorType''")
  case (Inl e)
  with py_item_Inl_Raised obtain x where "e = Raised x" by blast
  with Inl assms show ?thesis by (simp add: mfa_session_token_def and_then_def)
next
  case (Inr v)
  from py_in_False_item [OF assms] obtain x
    where "py_item mfa_verify ''sessionToken'' = Inl (Raised x)" by blast
  with Inr assms show ?thesis by (simp add: mfa_session_token_def and_then_def)
qed

text \<open>
  Claim C2, what the code does instead. When the DUO branch or the one-time-code branch
  ends with a verification reply that holds no session token, \<^verbatim>\<open>mfa_provider_type\<close>
  neither returns a token nor ends the run through \<^verbatim>\<open>sys.exit\<close>: it leaves by an
  exception that nothing handles (KeyError for a dictionary reply).
\<close>

theorem mfa_provider_type_missing_token:
  assumes "factor_type_of selected_factor = Inr factor_type"
    and "py_in ''sessionToken'' reply = Inr False"
    and "mfa_provider = JStr ''DUO'' \<and> duo_verify world = Inr reply
       \<or> (mfa_provider = JStr ''OKTA'' \<or> mfa_provider = JStr ''GOOGLE'')
         \<and> (factor_type = JStr ''token:software:totp'' \<or> factor_type = JStr ''sms'')
         \<and> fst (totp_approval config selected_mfa_option primary_auth
                  (verification_code world) (totp_verify world)) = Inr reply"
  shows "\<exists>x. fst (mfa_provider_type config world mfa_provider selected_factor primary_auth
                 selected_mfa_option) = Some (Inl (Raised x))"
proof -
  from mfa_session_token_missing [OF assms(2)] obtain x
    where x: "mfa_session_token primary_auth reply = Inl (Raised x)" by blast
  from assms(3) show ?thesis
  proof
    assume "mfa_provider = JStr ''DUO'' \<and> duo_verify world = Inr reply"
    with assms(1) x show ?thesis by (simp add: mfa_provider_type_def and_then_def)
  next
    assume t: "(mfa_provider = JStr ''OKTA'' \<or> mfa_provider = JStr ''GOOGLE'')
         \<and> (factor_type = JStr ''token:software:totp'' \<or> factor_type = JStr ''sms'')
         \<and> fst (totp_approval config selected_mfa_option primary_auth
                  (verification_code world) (totp_verify world)) = Inr reply"
    obtain v c where tp: "totp_approval config selected_mfa_option primary_auth
                  (verification_code world) (totp_verify world) = (v, c)"
      by (cases "totp_approval config selected_mfa_option primary_auth
                  (verification_code world) (totp_verify world)")
    with t have "v = Inr reply" by simp
    with assms(1) t tp x show ?thesis
      by (auto simp: mfa_provider_type_def and_then_def)
  qed
qed

theorem mfa_provider_type_missing_token_witness:
  "fst (mfa_provider_type example_config (totp_world invalid_passcode_reply) (JStr ''GOOGLE'')
          selected_totp_factor primary_auth_mfa_required google_totp_factor)
     = Some (Inl (Raised (KeyError ''factorType'')))"
proof -
  have a: "factor_type_of selected_totp_factor = Inr (JStr ''token:software:totp'')"
    by (simp add: factor_type_of_def selected_totp_factor_def google_totp_factor_def and_then_def)
  have b: "py_in ''sessionToken'' invalid_passcode_reply = Inr False"
    by (simp add: invalid_passcode_reply_def)
  have c: "fst (totp_approval example_config google_totp_factor primary_auth_mfa_required
                  (verification_code (totp_world invalid_passcode_reply))
                  (totp_verify (totp_world invalid_passcode_reply))) = Inr invalid_passcode_reply"
    by (simp add: totp_approval_def google_totp_factor_def primary_auth_mfa_required_def
        totp_world_def invalid_passcode_reply_def and_then_def Let_def)
  have d: "fst (mfa_provider_type example_config (totp_world invalid_passcode_reply)
          (JStr ''GOOGLE'') selected_totp_factor primary_auth_mfa_required google_totp_factor)
     = Some (and_then (Inr invalid_passcode_reply) (mfa_session_token primary_auth_mfa_required))"
    using a c by (auto simp: mfa_provider_type_def split: prod.splits)
  have e: "mfa_session_token primary_auth_mfa_required invalid_passcode_reply
             = Inl (Raised (KeyError ''factorType''))"
    by (simp add: mfa_session_token_def and_then_def primary_auth_mfa_required_def
        invalid_passcode_reply_def)
  from mfa_provider_type_missing_token [OF a b, of "JStr ''GOOGLE''"
      "totp_world invalid_passcode_reply" example_config google_totp_factor
      primary_auth_mfa_required] c d e
  show ?thesis by (simp add: and_then_def)
qed

section \<open>OAuth2 discovery\<close>

lemma items_check_obj:
  "map_err (\<lambda>item. and_then (py_in item (JObj kvs)) (\<lambda>has.
              if \<not> has then Inl (Exit 1 NoConfigItemFound) else Inr ())) items
     = (if set items \<subseteq> fst ` set kvs then Inr (map (\<lambda>_. ()) items)
        else Inl (Exit 1 NoConfigItemFound))"
  by (induction items) (auto simp: and_then_def)

lemma validate_ok_grant:
  assumes "validate_oauth2_configuration doc = Inr u"
  shows "\<exists>g. py_item doc ''grant_types_supported'' = Inr g
           \<and> py_in ''authorization_code'' g = Inr True"
  using assms
  by (auto simp: validate_oauth2_configuration_def and_then_def split: sum.splits if_splits)

lemma oauth2_authorize_returns:
  assumes "fst (oauth2_authorize http flow config cookies) = Inr c"
  shows "c = cookies \<and> (\<exists>doc tok cfg'. get_oauth2_configuration http (org config) = Inr doc
           \<and> authorization_code_enabled (org config) doc = Inr True
           \<and> flow config doc cookies = (Inr tok, cfg'))"
proof -
  from assms obtain doc where doc: "get_oauth2_configuration http (org config) = Inr doc"
    by (auto simp: oauth2_authorize_def split: sum.splits)
  then have "validate_oauth2_configuration doc = Inr ()"
    by (auto simp: get_oauth2_configuration_def and_then_def Let_def split: sum.splits)
  from validate_ok_grant [OF this]
  have en: "authorization_code_enabled (org config) doc = Inr True"
    by (auto simp: authorization_code_enabled_def and_then_def)
  obtain r cfg' where f: "flow config doc cookies = (r, cfg')"
    by (cases "flow config doc cookies")
  with assms doc en show ?thesis
    by (cases r) (auto simp: oauth2_authorize_def)
qed

text \<open>
  Claim C1, as amended. When the discovery document holds the five mandatory fields and its
  list of supported grant types lacks \<open>authorization_code\<close>, \<^verbatim>\<open>oauth2_authorize\<close> ends the
  attempt with exit status 1 (authorization code grant not found) and leaves the
  configuration as it was: the validation inside \<^verbatim>\<open>get_oauth2_configuration\<close> stops the
  run before the branch that would skip the flow. A document that lacks a mandatory field
  ends the attempt with exit status 1 as well. Whenever \<^verbatim>\<open>oauth2_authorize\<close> returns, it
  has run the authorization-code flow and it returns the prior session artifact unchanged.
\<close>

theorem oauth2_authorize_grant_missing:
  "(http (org config @ ''/.well-known/oauth-authorization-server'') = JObj kvs
      \<and> set mandadory_oauth2_config_items \<subseteq> fst ` set kvs
      \<and> map_of kvs ''grant_types_supported'' = Some (JArr grants)
      \<and> JStr ''authorization_code'' \<notin> set grants
    \<longrightarrow> oauth2_authorize http flow config cookies = (Inl (Exit 1 AuthCodeGrantNotFound), config))
   \<and> (http (org config @ ''/.well-known/oauth-authorization-server'') = JObj kvs
      \<and> \<not> set mandadory_oauth2_config_items \<subseteq> fst ` set kvs
    \<longrightarrow> oauth2_authorize http flow config cookies = (Inl (Exit 1 NoConfigItemFound), config))
   \<and> (\<forall>c. fst (oauth2_authorize http flow config cookies) = Inr c \<longrightarrow>
         c = cookies \<and> (\<exists>doc tok cfg'. get_oauth2_configuration http (org config) = Inr doc
           \<and> authorization_code_enabled (org config) doc = Inr True
           \<and> flow config doc cookies = (Inr tok, cfg')))"
proof (intro conjI impI allI)
  assume a: "http (org config @ ''/.well-known/oauth-authorization-server'') = JObj kvs
      \<and> set mandadory_oauth2_config_items \<subseteq> fst ` set kvs
      \<and> map_of kvs ''grant_types_supported'' = Some (JArr grants)
      \<and> JStr ''authorization_code'' \<notin> set grants"
  then have "validate_oauth2_configuration (JObj kvs) = Inl (Exit 1 AuthCodeGrantNotFound)"
    unfolding validate_oauth2_configuration_def items_check_obj
    by (simp add: and_then_def)
  with a show "oauth2_authorize http flow config cookies
                 = (Inl (Exit 1 AuthCodeGrantNotFound), config)"
    by (simp add: oauth2_authorize_def get_oauth2_configuration_def and_then_def)
next
  assume a: "http (org config @ ''/.well-known/oauth-authorization-server'') = JObj kvs
      \<and> \<not> set mandadory_oauth2_config_items \<subseteq> fst ` set kvs"
  then have "validate_oauth2_configuration (JObj kvs) = Inl (Exit 1 NoConfigItemFound)"
    unfolding validate_oauth2_configuration_def items_check_obj
    by (simp add: and_then_def)
  with a show "oauth2_authorize http flow config cookies
                 = (Inl (Exit 1 NoConfigItemFound), config)"
    by (simp add: oauth2_authorize_def get_oauth2_configuration_def and_then_def)
next
  fix c assume "fst (oauth2_authorize http flow config cookies) = Inr c"
  from oauth2_authorize_returns [OF this]
  show "c = cookies" and "\<exists>doc tok cfg'. get_oauth2_configuration http (org config) = Inr doc
           \<and> authorization_code_enabled (org config) doc = Inr True
           \<and> flow config doc cookies = (Inr tok, cfg')"
    by simp_all
qed

theorem oauth2_authorize_grant_missing_witness:
  "oauth2_authorize (\<lambda>url. discovery_without_grant) flow_granted example_config ''sid=102''
     = (Inl (Exit 1 AuthCodeGrantNotFound), example_config)
   \<and> oauth2_authorize (\<lambda>url. discovery_without_token_endpoint) flow_granted example_config
        ''sid=102''
     = (Inl (Exit 1 NoConfigItemFound), example_config)
   \<and> fst (oauth2_authorize (\<lambda>url. discovery_complete) flow_granted example_config ''sid=102'')
     = Inr ''sid=102''"
proof -
  have a: "fst (oauth2_authorize (\<lambda>url. discovery_complete) flow_granted example_config
             ''sid=102'') = Inr ''sid=102''"
    by (simp add: oauth2_authorize_def get_oauth2_configuration_def
        validate_oauth2_configuration_def mandadory_oauth2_config_items_def
        authorization_code_enabled_def discovery_complete_def flow_granted_def and_then_def)
  show ?thesis
    using a
      oauth2_authorize_grant_missing [of "\<lambda>url. discovery_without_grant" example_config
        "[(''authorization_endpoint'', JStr ''https://acme.okta.com/oauth2/v1/authorize''),
           (''token_endpoint'', JStr ''https://acme.okta.com/oauth2/v1/token''),
           (''grant_types_supported'', JArr [JStr ''implicit'', JStr ''refresh_token'']),
           (''response_types_supported'', JArr [JStr ''code'', JStr ''token'']),
           (''scopes_supported'', JArr [JStr ''openid''])]"
        "[JStr ''implicit'', JStr ''refresh_token'']" flow_granted "''sid=102''"]
      oauth2_authorize_grant_missing [of "\<lambda>url. discovery_without_token_endpoint" example_config
        "[(''authorization_endpoint'', JStr ''https://acme.okta.com/oauth2/v1/authorize''),
           (''grant_types_supported'', JArr [JStr ''authorization_code'']),
           (''response_types_supported'', JArr [JStr ''code'']),
           (''scopes_supported'', JArr [JStr ''openid''])]"
        "[]" flow_granted "''sid=102''"]
    by (simp add: discovery_without_grant_def discovery_without_token_endpoint_def
        mandadory_oauth2_config_items_def)
qed

theorem oauth2_skip_counterexample:
  "py_item discovery_without_grant ''grant_types_supported''
     = Inr (JArr [JStr ''implicit'', JStr ''refresh_token''])
   \<and> fst (oauth2_authorize (\<lambda>url. discovery_without_grant) flow_granted example_config
          ''sid=102'') \<noteq> Inr ''sid=102''"
  by (simp add: oauth2_authorize_def get_oauth2_configuration_def
      validate_oauth2_configuration_def mandadory_oauth2_config_items_def
      discovery_without_grant_def and_then_def)

section \<open>PKCE challenge\<close>

lemma unat_byte_less: "unat (a :: byte) < 256"
  using unsigned_less [of a, where 'a = nat] by simp

lemma sextet_bounds:
  "unat (a :: byte) div 4 < 64"
  "unat (a :: byte) mod 4 * 16 < 64"
  "unat (a :: byte) mod 4 * 16 + unat (b :: byte) div 16 < 64"
  "unat (b :: byte) mod 16 * 4 < 64"
  "unat (b :: byte) mod 16 * 4 + unat (c :: byte) div 64 < 64"
  "unat (c :: byte) mod 64 < 64"
  using unat_byte_less [of a] unat_byte_less [of b] unat_byte_less [of c]
  by simp_all

lemma alphabet_lengths: "length b64_alphabet = 64" "length base64url_alphabet = 64"
  by (simp_all add: b64_alphabet_def base64url_alphabet_def)

lemma translate_alphabet: "map urlsafe_translate b64_alphabet = base64url_alphabet"
  by (simp add: b64_alphabet_def base64url_alphabet_def urlsafe_translate_def)

lemma translate_b64chr: "n < 64 \<Longrightarrow> urlsafe_translate (b64chr n) = base64url_alphabet ! n"
  using nth_map [of n b64_alphabet urlsafe_translate]
  by (simp add: b64chr_def alphabet_lengths translate_alphabet)

lemma translate_pad: "urlsafe_translate (CHR ''='') = CHR ''=''"
  by (simp add: urlsafe_translate_def)

lemma urlsafe_b64encode_base64url: "urlsafe_b64encode bs = base64url bs"
  unfolding urlsafe_b64encode_def
  by (induction bs rule: b64encode.induct)
    (simp_all add: translate_b64chr sextet_bounds translate_pad)


lemma base64url_alphabet_nth: "n < 64 \<Longrightarrow> base64url_alphabet ! n \<in> set base64url_alphabet"
  by (simp add: alphabet_lengths)

lemma pad_not_in_alphabet: "CHR ''='' \<notin> set base64url_alphabet"
  by (simp add: base64url_alphabet_def)

text \<open>The encoding is data characters of the alphabet followed by at most two pads.\<close>

lemma base64url_shape:
  "\<exists>data k. base64url bs = data @ replicate k (CHR ''='')
      \<and> set data \<subseteq> set base64url_alphabet
      \<and> length data = (4 * length bs + 2) div 3"
proof (induction bs rule: base64url.induct)
  case (1 a b c rest)
  then obtain data k where d: "base64url rest = data @ replicate k (CHR ''='')"
    "set data \<subseteq> set base64url_alphabet" "length data = (4 * length rest + 2) div 3"
    by blast
  let ?g = "[base64url_alphabet ! (unat a div 4),
      base64url_alphabet ! (unat a mod 4 * 16 + unat b div 16),
      base64url_alphabet ! (unat b mod 16 * 4 + unat c div 64),
      base64url_alphabet ! (unat c mod 64)]"
  have "base64url (a # b # c # rest) = (?g @ data) @ replicate k (CHR ''='')"
    using d(1) by simp
  moreover have "set (?g @ data) \<subseteq> set base64url_alphabet"
    using d(2) by (simp add: base64url_alphabet_nth sextet_bounds)
  moreover have "length (?g @ data) = (4 * length (a # b # c # rest) + 2) div 3"
    using d(3) by simp
  ultimately show ?case by blast
next
  case (2 a b)
  let ?g = "[base64url_alphabet ! (unat a div 4),
      base64url_alphabet ! (unat a mod 4 * 16 + unat b div 16),
      base64url_alphabet ! (unat b mod 16 * 4)]"
  have "base64url [a, b] = ?g @ replicate 1 (CHR ''='')" by simp
  moreover have "set ?g \<subseteq> set base64url_alphabet"
    by (simp add: base64url_alphabet_nth sextet_bounds)
  moreover have "length ?g = (4 * length [a, b] + 2) div 3" by simp
  ultimately show ?case by blast
next
  case (3 a)
  let ?g = "[base64url_alphabet ! (unat a div 4), base64url_alphabet ! (unat a mod 4 * 16)]"
  have "base64url [a] = ?g @ replicate 2 (CHR ''='')" by (simp add: numeral_2_eq_2)
  moreover have "set ?g \<subseteq> set base64url_alphabet"
    by (simp add: base64url_alphabet_nth sextet_bounds)
  moreover have "length ?g = (4 * length [a] + 2) div 3" by simp
  ultimately show ?case by blast
next
  case 4
  have "base64url [] = [] @ replicate 0 (CHR ''='')" by simp
  then show ?case by fastforce
qed

lemma strip_pads:
  assumes "CHR ''='' \<notin> set data"
  shows "filter (\<lambda>c. c \<noteq> CHR ''='') (data @ replicate k (CHR ''='')) = data"
    and "without_padding (data @ replicate k (CHR ''='')) = data"
proof -
  from assms have f: "filter (\<lambda>c. c \<noteq> CHR ''='') data = data"
    by (induction data) auto
  then show "filter (\<lambda>c. c \<noteq> CHR ''='') (data @ replicate k (CHR ''='')) = data"
    by simp
  have "dropWhile (\<lambda>c. c = x) xs = xs" if "x \<notin> set xs" for x :: char and xs
    using that by (cases xs) auto
  from this [of "CHR ''=''" "rev data"] assms
  have "dropWhile (\<lambda>c. c = CHR ''='') (rev data) = rev data"
    by simp
  then have "dropWhile (\<lambda>c. c = CHR ''='') (replicate k (CHR ''='') @ rev data) = rev data"
    by (simp add: dropWhile_append)
  then show "without_padding (data @ replicate k (CHR ''='')) = data"
    by (simp add: without_padding_def)
qed

text \<open>The digest has thirty-two bytes.\<close>

lemma length_state_bytes: "length (state_bytes st) = 32"
  by (cases st rule: state_bytes.cases) simp

lemma length_sha256: "length (sha256 m) = 32"
  by (simp add: sha256_def Let_def length_state_bytes)

text \<open>The bytes that decode to a string as UTF-8 are the bytes \<^verbatim>\<open>str.encode("utf-8")\<close> yields
  for it, and a string of letters and digits has such bytes.\<close>

lemma byte_of_char_of: "(of_nat (unat b mod 256) :: byte) = b"
proof -
  have "unat b < 256" using unsigned_less [of b, where 'a = nat] by simp
  then show ?thesis by simp
qed

lemma utf8_encode_decoded:
  assumes "utf8_decode bs = Inr v"
  shows "utf8_encode v = bs"
proof -
  from assms have "v = map (\<lambda>b. char_of (unat b)) bs"
    by (simp add: utf8_decode_def split: if_splits)
  then show ?thesis
    by (simp add: utf8_encode_def byte_of_char_of o_def)
qed

lemma utf8_valid_ascii: "list_all (\<lambda>n. n < 128) ns \<Longrightarrow> utf8_valid ns"
  by (induction ns) simp_all

lemma is_alnum_ascii: "is_alnum c \<Longrightarrow> (of_char c :: nat) < 128"
  by (auto simp: is_alnum_def Let_def)

lemma utf8_decode_alnum:
  assumes "list_all is_alnum v"
  shows "utf8_decode (utf8_encode v) = Inr v"
proof -
  have u: "unat (of_nat (of_char c) :: byte) = of_char c" for c :: char
    by (simp add: unat_of_nat take_bit_eq_mod)
  from assms have "list_all (\<lambda>n. n < 128) (map unat (utf8_encode v))"
    by (induction v) (simp_all add: utf8_encode_def u is_alnum_ascii)
  then have "utf8_valid (map unat (utf8_encode v))" by (rule utf8_valid_ascii)
  moreover have "map (\<lambda>b. char_of (unat b)) (utf8_encode v) = v"
    by (simp add: utf8_encode_def u o_def)
  ultimately show ?thesis by (simp add: utf8_decode_def)
qed

text \<open>The example: SHA-256 of the bytes of the example verifier.\<close>

lemma sha256_example: "sha256 example_code_verifier_bytes = example_digest"
  by code_simp

text \<open>
  Claim C6. For every verifier made of letters and digits, of any length and so of length
  43 to 128, the verifier has UTF-8 bytes (bytes that decode to it), and the challenge that
  \<^verbatim>\<open>get_pkce_code_challenge\<close> derives is the URL-safe base64 encoding, with the padding
  removed, of the SHA-256 digest of these bytes. The challenge is a function of the
  verifier alone; it has 43 characters, all of the URL-safe alphabet.
\<close>

theorem pkce_code_challenge_unpadded_base64url:
  assumes "list_all is_alnum v"
  shows "(\<exists>bs. utf8_decode bs = Inr v)
       \<and> (\<forall>bs. utf8_decode bs = Inr v \<longrightarrow>
             get_pkce_code_challenge v = without_padding (base64url (sha256 bs)))
       \<and> length (get_pkce_code_challenge v) = 43
       \<and> set (get_pkce_code_challenge v) \<subseteq> set base64url_alphabet"
proof -
  let ?digest = "sha256 (utf8_encode v)"
  obtain data k where d: "base64url ?digest = data @ replicate k (CHR ''='')"
    "set data \<subseteq> set base64url_alphabet"
    "length data = (4 * length ?digest + 2) div 3"
    using base64url_shape by blast
  from d(2) pad_not_in_alphabet have np: "CHR ''='' \<notin> set data" by blast
  have c: "get_pkce_code_challenge v = data"
    using strip_pads(1) [OF np] d(1)
    by (simp add: get_pkce_code_challenge_def urlsafe_b64encode_base64url)
  have w: "get_pkce_code_challenge v = without_padding (base64url ?digest)"
    using c d(1) strip_pads(2) [OF np] by simp
  have e: "\<exists>bs. utf8_decode bs = Inr v"
    using utf8_decode_alnum [OF assms] by blast
  have a: "\<forall>bs. utf8_decode bs = Inr v \<longrightarrow>
             get_pkce_code_challenge v = without_padding (base64url (sha256 bs))"
    using w utf8_encode_decoded by blast
  have l: "length (get_pkce_code_challenge v) = 43"
    using c d(3) by (simp add: length_sha256)
  from e a l c d(2) show ?thesis by simp
qed

theorem pkce_code_challenge_unpadded_base64url_witness:
  "list_all is_alnum example_code_verifier \<and> length example_code_verifier = 43
   \<and> utf8_decode example_code_verifier_bytes = Inr example_code_verifier
   \<and> sha256 example_code_verifier_bytes = example_digest
   \<and> get_pkce_code_challenge example_code_verifier
       = ''8TeENCNnauv9iu88F_oggwjvygyNcQVfMNQRygRqtq0''"
proof -
  have a: "list_all is_alnum example_code_verifier" by code_simp
  have n: "length example_code_verifier = 43" by code_simp
  have u: "utf8_decode example_code_verifier_bytes = Inr example_code_verifier"
    by code_simp
  have b: "without_padding (base64url example_digest)
             = ''8TeENCNnauv9iu88F_oggwjvygyNcQVfMNQRygRqtq0''"
    by code_simp
  from pkce_code_challenge_unpadded_base64url [OF a]
  have "\<forall>bs. utf8_decode bs = Inr example_code_verifier \<longrightarrow>
          get_pkce_code_challenge example_code_verifier = without_padding (base64url (sha256 bs))"
    by blast
  with u have "get_pkce_code_challenge example_code_verifier
                 = without_padding (base64url (sha256 example_code_verifier_bytes))"
    by blast
  with b have "get_pkce_code_challenge example_code_verifier
                 = ''8TeENCNnauv9iu88F_oggwjvygyNcQVfMNQRygRqtq0''"
    by (simp add: sha256_example)
  with a n u show ?thesis by (simp add: sha256_example)
qed

section \<open>PKCE verifier\<close>

lemma base64url_append3:
  "length xs mod 3 = 0 \<Longrightarrow> base64url (xs @ ys) = base64url xs @ base64url ys"
  by (induction xs rule: base64url.induct) simp_all

lemma alphabet_alnum_or_dash:
  "list_all (\<lambda>c. is_alnum c \<longleftrightarrow> \<not> (c = CHR ''-'' \<or> c = CHR ''_'')) base64url_alphabet"
  by code_simp

lemma pad_not_alnum: "\<not> is_alnum (CHR ''='')"
  by (simp add: is_alnum_def)

lemma last_sextet_alnum: "is_alnum (base64url_alphabet ! (unat (a :: byte) mod 4 * 16))"
proof -
  have "unat a mod 4 < 4" by simp
  then consider "unat a mod 4 = 0" | "unat a mod 4 = 1" | "unat a mod 4 = 2" | "unat a mod 4 = 3"
    by linarith
  then show ?thesis
    by cases (simp_all add: base64url_alphabet_def is_alnum_def)
qed

text \<open>
  Claim C5, as amended. Every verifier that \<^verbatim>\<open>get_pkce_code_verifier\<close> produces from
  forty random bytes consists of letters and digits only (so it is URL-safe) and has
  between 1 and 54 characters: 54 minus the number of \<open>-\<close> and \<open>_\<close> characters in the
  base64 text of the bytes.
\<close>

theorem pkce_code_verifier_shape:
  assumes "length urandom40 = 40"
  shows "list_all is_alnum (get_pkce_code_verifier urandom40)
       \<and> 1 \<le> length (get_pkce_code_verifier urandom40)
       \<and> length (get_pkce_code_verifier urandom40) \<le> 54
       \<and> length (get_pkce_code_verifier urandom40)
           + length (filter (\<lambda>c. c = CHR ''-'' \<or> c = CHR ''_'') (urlsafe_b64encode urandom40))
         = 54"
proof -
  let ?v = "get_pkce_code_verifier urandom40"
  obtain data k where d: "base64url urandom40 = data @ replicate k (CHR ''='')"
    "set data \<subseteq> set base64url_alphabet" "length data = (4 * length urandom40 + 2) div 3"
    using base64url_shape by blast
  from d(3) assms have len: "length data = 54" by simp
  have v: "?v = filter is_alnum data"
    using d(1) pad_not_alnum
    by (simp add: get_pkce_code_verifier_def urlsafe_b64encode_base64url)
  have dash: "filter (\<lambda>c. c = CHR ''-'' \<or> c = CHR ''_'') (urlsafe_b64encode urandom40)
                = filter (\<lambda>c. \<not> is_alnum c) data"
  proof -
    have "filter (\<lambda>c. c = CHR ''-'' \<or> c = CHR ''_'') data = filter (\<lambda>c. \<not> is_alnum c) data"
      using d(2) alphabet_alnum_or_dash
      by (intro filter_cong refl) (auto simp: list_all_iff)
    then show ?thesis
      using d(1) by (simp add: urlsafe_b64encode_base64url)
  qed
  have total: "length ?v + length (filter (\<lambda>c. c = CHR ''-'' \<or> c = CHR ''_'')
                  (urlsafe_b64encode urandom40)) = 54"
    using sum_length_filter_compl [of is_alnum data] len by (simp add: v dash)
  have lower: "1 \<le> length ?v"
  proof -
    have "take (Suc 39) urandom40 = take 39 urandom40 @ [urandom40 ! 39]"
      using assms by (intro take_Suc_conv_app_nth) simp
    moreover have "take (Suc 39) urandom40 = urandom40"
      using assms by simp
    ultimately have split: "urandom40 = take 39 urandom40 @ [urandom40 ! 39]"
      by simp
    have "length (take 39 urandom40) mod 3 = 0"
      using assms by simp
    from base64url_append3 [OF this, of "[urandom40 ! 39]"] split
    have "base64url urandom40
        = base64url (take 39 urandom40) @ base64url [urandom40 ! 39]"
      by simp
    then have "base64url_alphabet ! (unat (urandom40 ! 39) mod 4 * 16) \<in> set (base64url urandom40)"
      by simp
    with last_sextet_alnum
    have "base64url_alphabet ! (unat (urandom40 ! 39) mod 4 * 16)
            \<in> set (filter is_alnum (base64url urandom40))"
      by simp
    then have "filter is_alnum (base64url urandom40) \<noteq> []"
      by (metis empty_iff empty_set)
    then show ?thesis
      by (cases "filter is_alnum (base64url urandom40)")
        (simp_all add: get_pkce_code_verifier_def urlsafe_b64encode_base64url)
  qed
  from total lower show ?thesis by (simp add: v list_all_iff)
qed


theorem pkce_code_verifier_shape_witness:
  "length (replicate 40 (255 :: byte)) = 40
   \<and> get_pkce_code_verifier (replicate 40 255) = ''w''
   \<and> list_all is_alnum (get_pkce_code_verifier (replicate 40 255))
   \<and> length (get_pkce_code_verifier (replicate 40 255)) \<le> 54"
proof -
  have l: "length (replicate 40 (255 :: byte)) = 40" by simp
  have w: "get_pkce_code_verifier (replicate 40 255) = ''w''" by code_simp
  note t = pkce_code_verifier_shape [OF l]
  have a: "list_all is_alnum (get_pkce_code_verifier (replicate 40 255))"
    using t [THEN conjunct1] .
  have b: "length (get_pkce_code_verifier (replicate 40 255)) \<le> 54"
    using t [THEN conjunct2, THEN conjunct2, THEN conjunct1] .
  from l w a b show ?thesis by blast
qed

theorem pkce_code_verifier_short_counterexample:
  "length (replicate 40 (255 :: byte)) = 40
   \<and> length (get_pkce_code_verifier (replicate 40 255)) < 43"
proof -
  have "get_pkce_code_verifier (replicate 40 255) = ''w''" by code_simp
  then show ?thesis by simp
qed

section \<open>Extraction of the SAML response\<close>

lemma find_first:
  "\<forall>t\<in>set pre. \<not> P t \<Longrightarrow> P e \<Longrightarrow> List.find P (pre @ e # post) = Some e"
  by (induction pre) auto

lemma find_none: "\<forall>t\<in>set xs. \<not> P t \<Longrightarrow> List.find P xs = None"
  by (induction xs) auto

lemma decode_QUJD:
  "ascii_encode ''QUJD'' = Inr [81, 85, 74, 68]"
  "a2b_base64 [81, 85, 74, 68] = Inr [65, 66, 67]"
  "utf8_decode [65, 66, 67] = Inr ''ABC''"
  by code_simp+

text \<open>
  Claim C10, as amended. When the first input element named SAMLResponse, in document
  order, carries the value QUJD, the raw extraction returns QUJD and the decoded extraction
  returns ABC; when the document has no input element named SAMLResponse, both extractions
  return \<^verbatim>\<open>None\<close> and raise nothing.
\<close>

theorem extract_saml_response_first_input:
  "(concat (map all_tags (html_parser html)) = pre @ e # post
      \<and> (\<forall>t\<in>set pre. \<not> soup_matches ''input'' ''name'' ''SAMLResponse'' t)
      \<and> soup_matches ''input'' ''name'' ''SAMLResponse'' e
      \<and> tag_get e ''value'' = Some ''QUJD''
    \<longrightarrow> extract_saml_response html_parser html True = Inr (Some ''QUJD'')
      \<and> extract_saml_response html_parser html False = Inr (Some ''ABC''))
   \<and> ((\<forall>t\<in>set (concat (map all_tags (html_parser html))).
          \<not> soup_matches ''input'' ''name'' ''SAMLResponse'' t)
    \<longrightarrow> extract_saml_response html_parser html raw = Inr None)"
proof (intro conjI impI)
  assume a: "concat (map all_tags (html_parser html)) = pre @ e # post
      \<and> (\<forall>t\<in>set pre. \<not> soup_matches ''input'' ''name'' ''SAMLResponse'' t)
      \<and> soup_matches ''input'' ''name'' ''SAMLResponse'' e
      \<and> tag_get e ''value'' = Some ''QUJD''"
  then have f: "soup_find ''input'' ''name'' ''SAMLResponse'' (html_parser html) = Some e"
    by (simp add: soup_find_def find_first)
  from a have v: "py_str (tag_get e ''value'') = ''QUJD''" by (simp add: py_str_def)
  show "extract_saml_response html_parser html True = Inr (Some ''QUJD'')"
    unfolding extract_saml_response_def f by (simp add: v decode_QUJD and_then_def)
  show "extract_saml_response html_parser html False = Inr (Some ''ABC'')"
    unfolding extract_saml_response_def f by (simp add: v decode_QUJD and_then_def)
next
  assume "\<forall>t\<in>set (concat (map all_tags (html_parser html))).
          \<not> soup_matches ''input'' ''name'' ''SAMLResponse'' t"
  then have "soup_find ''input'' ''name'' ''SAMLResponse'' (html_parser html) = None"
    unfolding soup_find_def by (rule find_none)
  then show "extract_saml_response html_parser html raw = Inr None"
    by (simp add: extract_saml_response_def)
qed

lemma saml_form_tags:
  "concat (map all_tags (saml_form inputs)) =
     [Tag ''html'' [] [Tag ''body'' []
        [Tag ''form'' [(''id'', ''appForm''), (''action'', ''https://acme.okta.com/sso/saml'')]
           (inputs @ [Tag ''input'' [(''name'', ''RelayState''), (''value'', ''foobar'')] []])]],
      Tag ''body'' []
        [Tag ''form'' [(''id'', ''appForm''), (''action'', ''https://acme.okta.com/sso/saml'')]
           (inputs @ [Tag ''input'' [(''name'', ''RelayState''), (''value'', ''foobar'')] []])],
      Tag ''form'' [(''id'', ''appForm''), (''action'', ''https://acme.okta.com/sso/saml'')]
           (inputs @ [Tag ''input'' [(''name'', ''RelayState''), (''value'', ''foobar'')] []])]
     @ concat (map all_tags inputs)
     @ [Tag ''input'' [(''name'', ''RelayState''), (''value'', ''foobar'')] []]"
  by (simp add: saml_form_def)

theorem extract_saml_response_first_input_witness:
  "extract_saml_response (\<lambda>html. saml_form [saml_input ''QUJD'']) ''<html>...</html>'' True
     = Inr (Some ''QUJD'')
   \<and> extract_saml_response (\<lambda>html. saml_form [saml_input ''QUJD'']) ''<html>...</html>'' False
     = Inr (Some ''ABC'')
   \<and> extract_saml_response (\<lambda>html. saml_form []) ''<html>...</html>'' False = Inr None"
proof -
  let ?form = "Tag ''form'' [(''id'', ''appForm''), (''action'', ''https://acme.okta.com/sso/saml'')]
           ([saml_input ''QUJD''] @ [Tag ''input'' [(''name'', ''RelayState''), (''value'', ''foobar'')] []])"
  let ?pre = "[Tag ''html'' [] [Tag ''body'' [] [?form]], Tag ''body'' [] [?form], ?form]"
  let ?post = "[Tag ''input'' [(''name'', ''RelayState''), (''value'', ''foobar'')] []]"
  have a: "concat (map all_tags (saml_form [saml_input ''QUJD''])) = ?pre @ saml_input ''QUJD'' # ?post"
    by (simp add: saml_form_tags) (simp add: saml_input_def)
  have b: "\<forall>t\<in>set ?pre. \<not> soup_matches ''input'' ''name'' ''SAMLResponse'' t"
    by (simp add: soup_matches_def)
  have c: "soup_matches ''input'' ''name'' ''SAMLResponse'' (saml_input ''QUJD'')"
    "tag_get (saml_input ''QUJD'') ''value'' = Some ''QUJD''"
    by (simp_all add: soup_matches_def saml_input_def)
  have d: "\<forall>t\<in>set (concat (map all_tags (saml_form []))).
          \<not> soup_matches ''input'' ''name'' ''SAMLResponse'' t"
    by (simp add: saml_form_tags soup_matches_def)
  from extract_saml_response_first_input
         [of "\<lambda>html. saml_form [saml_input ''QUJD'']" "''<html>...</html>''" ?pre
            "saml_input ''QUJD''" ?post]
       a b c
  have "extract_saml_response (\<lambda>html. saml_form [saml_input ''QUJD'']) ''<html>...</html>'' True
          = Inr (Some ''QUJD'')
      \<and> extract_saml_response (\<lambda>html. saml_form [saml_input ''QUJD'']) ''<html>...</html>'' False
          = Inr (Some ''ABC'')"
    by blast
  moreover from extract_saml_response_first_input
         [of "\<lambda>html. saml_form []" "''<html>...</html>''" _ _ _ False] d
  have "extract_saml_response (\<lambda>html. saml_form []) ''<html>...</html>'' False = Inr None"
    by blast
  ultimately show ?thesis by blast
qed

theorem extract_saml_response_second_input_counterexample:
  "saml_input ''QUJD''
     \<in> set (concat (map all_tags (saml_form [saml_input ''QUJE'', saml_input ''QUJD''])))
   \<and> extract_saml_response (\<lambda>html. saml_form [saml_input ''QUJE'', saml_input ''QUJD''])
        ''<html>...</html>'' True = Inr (Some ''QUJE'')"
proof -
  have "extract_saml_response (\<lambda>html. saml_form [saml_input ''QUJE'', saml_input ''QUJD''])
        ''<html>...</html>'' True = Inr (Some ''QUJE'')"
    by code_simp
  moreover have "saml_input ''QUJD''
     \<in> set (concat (map all_tags (saml_form [saml_input ''QUJE'', saml_input ''QUJD''])))"
    by (simp add: saml_form_tags saml_input_def)
  ultimately show ?thesis by blast
qed

section \<open>Submitting the SAML response\<close>

text \<open>Reading a cookie fails only with CookieConflictError, and never on a jar that holds
  the name at most once.\<close>

lemma find_no_duplicates_error:
  "find_no_duplicates name jar v = Inl e \<Longrightarrow> e = Raised CookieConflictError"
  by (induction jar arbitrary: v) (auto split: if_splits)

lemma jar_get_error:
  "jar_get jar name = Inl e \<Longrightarrow> e = Raised CookieConflictError"
  by (cases "find_no_duplicates name jar None")
     (auto simp: jar_get_def and_then_def find_no_duplicates_error
           split: option.splits if_splits)

lemma find_no_duplicates_absent:
  "filter (\<lambda>c. fst c = name) jar = [] \<Longrightarrow> find_no_duplicates name jar v = Inr v"
  by (induction jar arbitrary: v) (auto split: if_splits)

lemma find_no_duplicates_at_most_one:
  "length (filter (\<lambda>c. fst c = name) jar) \<le> 1
     \<Longrightarrow> \<exists>r. find_no_duplicates name jar None = Inr r"
  by (induction jar) (auto simp: find_no_duplicates_absent split: if_splits)

lemma jar_get_at_most_one:
  assumes "length (filter (\<lambda>c. fst c = name) jar) \<le> 1"
  shows "\<exists>sid. jar_get jar name = Inr sid"
proof -
  from find_no_duplicates_at_most_one [OF assms]
  obtain r where "find_no_duplicates name jar None = Inr r" by blast
  then show ?thesis
    by (cases r) (simp_all add: jar_get_def and_then_def)
qed

lemma jar_get_two_values:
  "jar_get ((name, Some v) # (name, w) # jar) name = Inl (Raised CookieConflictError)"
  by (simp add: jar_get_def and_then_def)

text \<open>The pattern finds the token of a script that is one assignment of the state token,
  whatever the token is, as long as it holds no newline.\<close>

lemma greedy_until_length:
  "greedy_until sep l = Some t \<Longrightarrow> length t + length sep \<le> length l"
proof (induction l arbitrary: t)
  case Nil
  then show ?case by (simp split: if_splits)
next
  case (Cons c cs)
  show ?case
  proof (cases "greedy_until sep cs")
    case None
    with Cons.prems have "prefix sep (c # cs)" and "t = []"
      by (simp_all split: if_splits)
    then show ?thesis by (auto dest: prefix_length_le)
  next
    case (Some u)
    with Cons.prems have "t = c # u" by simp
    with Cons.IH [OF Some] show ?thesis by simp
  qed
qed

lemma greedy_until_last:
  assumes "sep \<noteq> []"
  shows "greedy_until sep (t @ sep) = Some t"
proof (induction t)
  case Nil
  obtain c cs where sep: "sep = c # cs" using assms by (cases sep) auto
  have "greedy_until sep cs = None"
  proof (cases "greedy_until sep cs")
    case (Some u)
    from greedy_until_length [OF Some] sep show ?thesis by simp
  qed simp
  then show ?case using sep by simp
next
  case (Cons a t)
  then show ?case by simp
qed

lemma state_token_search_assignment:
  assumes "CHR 0x0A \<notin> set tok"
  shows "state_token_search (state_token_prefix @ tok @ state_token_suffix) = Some tok"
proof -
  obtain c cs where p: "state_token_prefix = c # cs"
    by (cases state_token_prefix) (simp_all add: state_token_prefix_def)
  have nl: "CHR 0x0A \<notin> set state_token_suffix"
    by (simp add: state_token_suffix_def)
  have line: "takeWhile (\<lambda>x. x \<noteq> CHR 0x0A) (tok @ state_token_suffix) = tok @ state_token_suffix"
    using assms nl by (intro takeWhile_eq_all_conv [THEN iffD2]) auto
  have g: "greedy_until state_token_suffix (tok @ state_token_suffix) = Some tok"
    by (rule greedy_until_last) (simp add: state_token_suffix_def)
  have eq: "state_token_prefix @ tok @ state_token_suffix = c # (cs @ tok @ state_token_suffix)"
    using p by simp
  have pre: "prefix state_token_prefix (c # (cs @ tok @ state_token_suffix))"
    unfolding eq [symmetric] by simp
  have dr: "drop (length state_token_prefix) (c # (cs @ tok @ state_token_suffix))
              = tok @ state_token_suffix"
    unfolding eq [symmetric] by simp
  have r: "state_token_search (c # (cs @ tok @ state_token_suffix)) = Some tok"
    unfolding state_token_search.simps dr line g using pre by simp
  show ?thesis unfolding eq by (rule r)
qed




section \<open>SAML chaining leaves the caller's configuration alone\<close>

lemma unchanged_except_refl [simp]: "unchanged_except a m m"
  by (simp add: unchanged_except_def)

lemma unchanged_except_outside [simp]:
  "unchanged_except a m (m'\<lparr>outside := w\<rparr>) = unchanged_except a m m'"
  "unchanged_except a (m\<lparr>outside := w\<rparr>) m' = unchanged_except a m m'"
  "unchanged_except a (m\<lparr>idp_auth_calls := cs\<rparr>) m' = unchanged_except a m m'"
  "unchanged_except a m (m'\<lparr>idp_auth_calls := cs\<rparr>) = unchanged_except a m m'"
  by (simp_all add: unchanged_except_def)

lemma unchanged_except_update:
  "unchanged_except a m m' \<Longrightarrow> unchanged_except a m (m'\<lparr>configs := (configs m')[a := c]\<rparr>)"
  by (auto simp: unchanged_except_def)

lemma all_unchanged_except: "all_unchanged m m' \<Longrightarrow> unchanged_except a m m'"
  by (simp add: all_unchanged_def unchanged_except_def)

lemma unchanged_except_trans:
  "unchanged_except a m m' \<Longrightarrow> unchanged_except a m' m'' \<Longrightarrow> unchanged_except a m m''"
  by (auto simp: unchanged_except_def)

text \<open>What one level of \<^verbatim>\<open>idp_auth\<close> preserves, given what the nested call preserves.\<close>

lemma idp_auth_step:
  assumes nested: "\<And>props m1 r1 m2. saml2_authenticate n env a props m1 = Some (r1, m2) \<Longrightarrow>
              a < length (configs m1) \<Longrightarrow>
              all_unchanged m1 m2 \<and> (\<exists>rest. idp_auth_calls m2 = idp_auth_calls m1 @ rest)"
    and run: "idp_auth (Suc n) env a m = Some (r, m')"
    and a: "a < length (configs m)"
  shows "unchanged_except a m m'
       \<and> (\<exists>rest. idp_auth_calls m' = idp_auth_calls m @ (a, configs m ! a) # rest)"
proof -
  define m0 where "m0 = m\<lparr>idp_auth_calls := idp_auth_calls m @ [(a, configs m ! a)]\<rparr>"
  obtain pr w where gp: "env_get_auth_properties env (username (configs m0 ! a))
             (org (configs m0 ! a)) (outside m0) = (pr, w)"
    by (cases "env_get_auth_properties env (username (configs m0 ! a))
             (org (configs m0 ! a)) (outside m0)")
  show ?thesis
  proof (cases pr)
    case (Inl e)
    with run gp have "m' = m0\<lparr>outside := w\<rparr>"
      by (simp add: m0_def Let_def)
    then show ?thesis by (simp add: m0_def)
  next
    case (Inr props)
    define m1 where "m1 = m0\<lparr>outside := w\<rparr>"
    define branch where "branch =
             (if prop_type props = JStr ''OKTA'' then
                (case env_user_authenticate env (configs m1 ! a) (outside m1) of
                   (Inl e, c', w') \<Rightarrow>
                     Some (Inl e, m1\<lparr>configs := (configs m1)[a := c'], outside := w'\<rparr>)
                 | (Inr session_token, c', w') \<Rightarrow>
                     (case env_request_cookies env (org c') session_token w' of
                        (r, w'') \<Rightarrow>
                          Some (r, m1\<lparr>configs := (configs m1)[a := c'], outside := w''\<rparr>)))
              else if prop_type props = JStr ''SAML2'' then
                saml2_authenticate n env a props m1
              else Some (Inl (Exit 1 (IdpDiscoveryNotSupported (prop_type props))), m1))"
    have unfold: "idp_auth (Suc n) env a m =
           (case branch of
             None \<Rightarrow> None
           | Some (Inl e, m2) \<Rightarrow> Some (Inl e, m2)
           | Some (Inr session_cookies, m2) \<Rightarrow>
               (case env_oie_enabled env (org (configs m2 ! a)) (outside m2) of
                  (Inl e, w') \<Rightarrow> Some (Inl e, m2\<lparr>outside := w'\<rparr>)
                | (Inr enabled, w') \<Rightarrow>
                    if enabled then
                      (case env_oauth2_authorize env (configs m2 ! a) session_cookies w' of
                         (r, c', w'') \<Rightarrow>
                           Some (r, m2\<lparr>configs := (configs m2)[a := c'], outside := w''\<rparr>))
                    else Some (Inr session_cookies, m2\<lparr>outside := w'\<rparr>)))"
      using gp Inr unfolding branch_def m1_def m0_def by (simp add: Let_def)
    have a1: "a < length (configs m1)" using a by (simp add: m1_def m0_def)
    have m1: "unchanged_except a m m1"
      "idp_auth_calls m1 = idp_auth_calls m @ [(a, configs m ! a)]"
      by (simp_all add: m1_def m0_def)
    have br: "unchanged_except a m1 m2 \<and> (\<exists>rest. idp_auth_calls m2 = idp_auth_calls m1 @ rest)"
      if "branch = Some (r2, m2)" for r2 m2
    proof (cases "prop_type props = JStr ''OKTA''")
      case True
      obtain t c' w' where ua: "env_user_authenticate env (configs m1 ! a) (outside m1) = (t, c', w')"
        by (cases "env_user_authenticate env (configs m1 ! a) (outside m1)")
      show ?thesis
      proof (cases t)
        case (Inl e)
        with that True ua have "m2 = m1\<lparr>configs := (configs m1)[a := c'], outside := w'\<rparr>"
          by (simp add: branch_def)
        then show ?thesis by (simp add: unchanged_except_def)
      next
        case (Inr tok)
        obtain rr w'' where rc: "env_request_cookies env (org c') tok w' = (rr, w'')"
          by (cases "env_request_cookies env (org c') tok w'")
        with that True ua Inr have "m2 = m1\<lparr>configs := (configs m1)[a := c'], outside := w''\<rparr>"
          by (simp add: branch_def)
        then show ?thesis by (simp add: unchanged_except_def)
      qed
    next
      case False
      show ?thesis
      proof (cases "prop_type props = JStr ''SAML2''")
        case True
        with that False have "saml2_authenticate n env a props m1 = Some (r2, m2)"
          by (simp add: branch_def)
        from nested [OF this a1] show ?thesis by (simp add: all_unchanged_except)
      next
        case False
        with that \<open>prop_type props \<noteq> JStr ''OKTA''\<close> have "m2 = m1" by (simp add: branch_def)
        then show ?thesis by simp
      qed
    qed
    from run unfold obtain r2 m2 where b: "branch = Some (r2, m2)"
      by (cases branch) auto
    from br [OF b] obtain rest where m2: "unchanged_except a m1 m2"
      "idp_auth_calls m2 = idp_auth_calls m1 @ rest" by blast
    have fin: "unchanged_except a m2 m' \<and> idp_auth_calls m' = idp_auth_calls m2"
    proof (cases r2)
      case (Inl e)
      with run unfold b show ?thesis by simp
    next
      case (Inr session_cookies)
      obtain en w' where oe: "env_oie_enabled env (org (configs m2 ! a)) (outside m2) = (en, w')"
        by (cases "env_oie_enabled env (org (configs m2 ! a)) (outside m2)")
      show ?thesis
      proof (cases en)
        case (Inl e)
        with run unfold b Inr oe show ?thesis by auto
      next
        case enabled: (Inr enabled)
        show ?thesis
        proof (cases enabled)
          case False
          with run unfold b Inr oe enabled show ?thesis by auto
        next
          case True
          obtain rr c' w'' where oa: "env_oauth2_authorize env (configs m2 ! a) session_cookies w'
                                        = (rr, c', w'')"
            by (cases "env_oauth2_authorize env (configs m2 ! a) session_cookies w'")
          with run unfold b Inr oe enabled True
          have "m' = m2\<lparr>configs := (configs m2)[a := c'], outside := w''\<rparr>" by auto
          then show ?thesis by (simp add: unchanged_except_def)
        qed
      qed
    qed
    from m1 m2 fin have "unchanged_except a m m'"
      using unchanged_except_trans by blast
    moreover from m1 m2 fin have "idp_auth_calls m' = idp_auth_calls m @ (a, configs m ! a) # rest"
      by simp
    ultimately show ?thesis by blast
  qed
qed


text \<open>What \<^verbatim>\<open>saml2_authenticate\<close> preserves, given what the nested \<^verbatim>\<open>idp_auth\<close> preserves.\<close>

lemma saml2_authenticate_step:
  assumes nested: "\<And>c m1 r1 m2. idp_auth n env c m1 = Some (r1, m2) \<Longrightarrow>
              c < length (configs m1) \<Longrightarrow>
              unchanged_except c m1 m2
              \<and> (\<exists>rest. idp_auth_calls m2 = idp_auth_calls m1 @ (c, configs m1 ! c) # rest)"
    and run: "saml2_authenticate (Suc n) env a props m = Some (r, m')"
    and a: "a < length (configs m)"
  shows "all_unchanged m m'
       \<and> (\<exists>rest. idp_auth_calls m' = idp_auth_calls m @ rest)
       \<and> (\<forall>req w. env_get_saml_request env props (outside m) = (Inr req, w) \<longrightarrow>
             (\<exists>rest. idp_auth_calls m' = idp_auth_calls m @
                (length (configs m), (configs m ! a)\<lparr>org := base_url req\<rparr>) # rest))"
proof -
  obtain q w where gs: "env_get_saml_request env props (outside m) = (q, w)"
    by (cases "env_get_saml_request env props (outside m)")
  show ?thesis
  proof (cases q)
    case (Inl e)
    with run gs have "m' = m\<lparr>outside := w\<rparr>" by simp
    with gs Inl show ?thesis by (simp add: all_unchanged_def)
  next
    case (Inr req)
    define c where "c = length (configs m)"
    define mc where "mc = m\<lparr>outside := w,
        configs := configs m @ [(configs m ! a)\<lparr>org := base_url req\<rparr>]\<rparr>"
    have copy: "deepcopy a (m\<lparr>outside := w\<rparr>)
                  = (c, m\<lparr>outside := w, configs := configs m @ [configs m ! a]\<rparr>)"
      "set_org c (base_url req) (m\<lparr>outside := w, configs := configs m @ [configs m ! a]\<rparr>)
         = mc"
      by (simp_all add: deepcopy_def set_org_def c_def mc_def)
    have unfold: "saml2_authenticate (Suc n) env a props m =
               (case idp_auth n env c mc of
                  None \<Rightarrow> None
                | Some (Inl e, m2) \<Rightarrow> Some (Inl e, m2)
                | Some (Inr session_cookies, m2) \<Rightarrow>
                    (case env_send_saml_request env req session_cookies (outside m2) of
                       (Inl e, w') \<Rightarrow> Some (Inl e, m2\<lparr>outside := w'\<rparr>)
                     | (Inr saml_resp, w') \<Rightarrow>
                         (case env_send_saml_response env (configs m2 ! a) saml_resp w' of
                            (r, w'') \<Rightarrow> Some (r, m2\<lparr>outside := w''\<rparr>))))"
      using gs Inr copy by simp
    from run unfold obtain r1 m2 where ia: "idp_auth n env c mc = Some (r1, m2)"
      by (cases "idp_auth n env c mc") auto
    have cm: "c < length (configs mc)" "configs mc ! c = (configs m ! a)\<lparr>org := base_url req\<rparr>"
      "idp_auth_calls mc = idp_auth_calls m"
      by (simp_all add: c_def mc_def)
    from nested [OF ia cm(1)] cm obtain rest where
      fr: "unchanged_except c mc m2"
      and calls: "idp_auth_calls m2 = idp_auth_calls m @ (c, (configs m ! a)\<lparr>org := base_url req\<rparr>) # rest"
      by auto
    have keep: "all_unchanged m m2"
      using fr by (auto simp: unchanged_except_def all_unchanged_def c_def mc_def nth_append)
    have fin: "configs m' = configs m2 \<and> idp_auth_calls m' = idp_auth_calls m2"
    proof (cases r1)
      case (Inl e)
      with run unfold ia show ?thesis by simp
    next
      case (Inr session_cookies)
      obtain sr w' where ss: "env_send_saml_request env req session_cookies (outside m2) = (sr, w')"
        by (cases "env_send_saml_request env req session_cookies (outside m2)")
      show ?thesis
      proof (cases sr)
        case (Inl e)
        with run unfold ia Inr ss show ?thesis by auto
      next
        case resp: (Inr saml_resp)
        obtain rr w'' where "env_send_saml_response env (configs m2 ! a) saml_resp w' = (rr, w'')"
          by (cases "env_send_saml_response env (configs m2 ! a) saml_resp w'")
        with run unfold ia Inr ss resp show ?thesis by auto
      qed
    qed
    from keep fin have "all_unchanged m m'" by (simp add: all_unchanged_def)
    moreover from calls fin have "idp_auth_calls m' = idp_auth_calls m @
        (length (configs m), (configs m ! a)\<lparr>org := base_url req\<rparr>) # rest"
      by (simp add: c_def)
    ultimately show ?thesis using gs Inr by auto
  qed
qed

lemma chaining_frames:
  "(\<forall>a m r m'. idp_auth n env a m = Some (r, m') \<longrightarrow> a < length (configs m) \<longrightarrow>
       unchanged_except a m m'
       \<and> (\<exists>rest. idp_auth_calls m' = idp_auth_calls m @ (a, configs m ! a) # rest))
   \<and> (\<forall>a props m r m'. saml2_authenticate n env a props m = Some (r, m') \<longrightarrow>
       a < length (configs m) \<longrightarrow>
       all_unchanged m m'
       \<and> (\<exists>rest. idp_auth_calls m' = idp_auth_calls m @ rest)
       \<and> (\<forall>req w. env_get_saml_request env props (outside m) = (Inr req, w) \<longrightarrow>
             (\<exists>rest. idp_auth_calls m' = idp_auth_calls m @
                (length (configs m), (configs m ! a)\<lparr>org := base_url req\<rparr>) # rest)))"
proof (induction n)
  case 0
  show ?case by simp
next
  case (Suc n)
  show ?case
  proof (intro conjI allI impI)
    fix a m r m'
    assume run: "idp_auth (Suc n) env a m = Some (r, m')" and a: "a < length (configs m)"
    have nested: "all_unchanged m1 m2 \<and> (\<exists>rest. idp_auth_calls m2 = idp_auth_calls m1 @ rest)"
      if "saml2_authenticate n env a props m1 = Some (r1, m2)" "a < length (configs m1)"
      for props m1 r1 m2
      using Suc that by blast
    from idp_auth_step [OF nested run a]
    show "unchanged_except a m m'"
      and "\<exists>rest. idp_auth_calls m' = idp_auth_calls m @ (a, configs m ! a) # rest"
      by simp_all
  next
    fix a props m r m'
    assume run: "saml2_authenticate (Suc n) env a props m = Some (r, m')"
      and a: "a < length (configs m)"
    have nested: "unchanged_except c m1 m2
              \<and> (\<exists>rest. idp_auth_calls m2 = idp_auth_calls m1 @ (c, configs m1 ! c) # rest)"
      if "idp_auth n env c m1 = Some (r1, m2)" "c < length (configs m1)" for c m1 r1 m2
      using Suc that by blast
    from saml2_authenticate_step [OF nested run a]
    show "all_unchanged m m'" and "\<exists>rest. idp_auth_calls m' = idp_auth_calls m @ rest"
      and "\<And>req w. env_get_saml_request env props (outside m) = (Inr req, w) \<Longrightarrow>
             \<exists>rest. idp_auth_calls m' = idp_auth_calls m @
                (length (configs m), (configs m ! a)\<lparr>org := base_url req\<rparr>) # rest"
      by simp_all
  qed
qed


text \<open>
  Claim C9. In every run of \<^verbatim>\<open>saml2_authenticate\<close> that returns (with a result or with a
  failure), the configuration object of the caller holds after the call what it held
  before, in every field, and so does every other object that existed before; and when
  the SAML request was obtained, the nested \<^verbatim>\<open>idp_auth\<close> was entered with a new object,
  distinct from the caller's, whose content is the caller's configuration with the org URL
  replaced by the base URL of the identity provider.
\<close>

theorem saml2_authenticate_keeps_config:
  assumes "saml2_authenticate depth env config props m = Some (r, m')"
    and "config < length (configs m)"
  shows "configs m' ! config = configs m ! config
       \<and> all_unchanged m m'
       \<and> length (configs m) \<noteq> config
       \<and> (\<forall>req w. env_get_saml_request env props (outside m) = (Inr req, w) \<longrightarrow>
             (\<exists>rest. idp_auth_calls m' = idp_auth_calls m @
                (length (configs m), (configs m ! config)\<lparr>org := base_url req\<rparr>) # rest))"
proof -
  from chaining_frames [of depth env] assms
  have f: "all_unchanged m m'"
    and c: "\<forall>req w. env_get_saml_request env props (outside m) = (Inr req, w) \<longrightarrow>
             (\<exists>rest. idp_auth_calls m' = idp_auth_calls m @
                (length (configs m), (configs m ! config)\<lparr>org := base_url req\<rparr>) # rest)"
    by blast+
  from f assms(2) have "configs m' ! config = configs m ! config"
    by (simp add: all_unchanged_def)
  with f c assms(2) show ?thesis by simp
qed

theorem saml2_authenticate_keeps_config_witness:
  "map_option (\<lambda>(r, m'). (r, configs m' ! 0, idp_auth_calls m'))
     (saml2_authenticate 2 one_hop 0 acme_properties start_machine)
   = Some (Inr [(''sid'', Some ''102abc''),
                (''from'', Some ''https://newscorpdev2.oktapreview.com/login/token/redirect'')],
           example_config,
           [(1, example_config\<lparr>org := ''https://idp.example.com''\<rparr>)])"
proof -
  let ?r = "Inr [(''sid'', Some ''102abc''),
                (''from'', Some ''https://newscorpdev2.oktapreview.com/login/token/redirect'')]"
  let ?m = "\<lparr>configs = [example_config,
               example_config\<lparr>org := ''https://idp.example.com'',
                 mfa_response := Some ''123456'', oauth_client_id := Some ''okta.2b1959c8''\<rparr>],
             outside = 9::nat,
             idp_auth_calls = [(1, example_config\<lparr>org := ''https://idp.example.com''\<rparr>)]\<rparr>"
  have run: "saml2_authenticate 2 one_hop 0 acme_properties start_machine = Some (?r, ?m)"
    by code_simp
  have a: "0 < length (configs start_machine)"
    by (simp add: start_machine_def)
  from saml2_authenticate_keeps_config [OF run a]
  have "configs ?m ! 0 = configs start_machine ! 0" by blast
  then have "configs ?m ! 0 = example_config" by (simp add: start_machine_def)
  with run show ?thesis by simp
qed

end
